theory Spec2Isabelle
  imports Complex_Main "HOL-Library.AList"
begin

section \<open>Values, errors and tuples (Dee.py, lines 17-73 and 193-289)\<close>

text \<open>
  Attribute names are Python strings. The domain values that occur in the sample
  databases are integers and strings; \<open>NoneV\<close> is Python's \<open>None\<close>, and \<open>ListV\<close> is a
  Python list, a value that \<open>hash\<close> and the lookup in a dict refuse with \<open>TypeError\<close>.
  \<open>type_of\<close> is the class that \<open>isinstance(x, type(y))\<close> compares.
\<close>

type_synonym attr = string

datatype val = IntV int | StrV string | NoneV | ListV "val list"

datatype vtype = IntT | StrT | NoneT | ListT

fun type_of :: "val \<Rightarrow> vtype" where
  "type_of (IntV i) = IntT"
| "type_of (StrV s) = StrT"
| "type_of NoneV = NoneT"
| "type_of (ListV vs) = ListT"

fun hashable :: "val \<Rightarrow> bool" where
  "hashable (IntV i) = True"
| "hashable (StrV s) = True"
| "hashable NoneV = True"
| "hashable (ListV vs) = False"

text \<open>
  The exception classes of Dee.py and the built-in exceptions that the modelled code can
  raise. \<open>RelationConstraintException\<close> carries the name of the failed constraint.
\<close>

datatype error =
    RelationException
  | RelationConstraintException string
  | RelationInvalidOperationException
  | RelationUnsupportedOperandTypesException
  | KeyError attr
  | IndexError
  | TypeError
  | AttributeError string
  | NameError string
  | SyntaxError
  | AssertionError
  | PicklingError
  | PlainException

definition ebind :: "error + 'a \<Rightarrow> ('a \<Rightarrow> error + 'b) \<Rightarrow> error + 'b" where
  "ebind x f = (case x of Inl e \<Rightarrow> Inl e | Inr v \<Rightarrow> f v)"

text \<open>
  A \<open>Tuple\<close> is a Python dict: an insertion-ordered association list with unique keys.
  \<open>dict_update t1 t2\<close> is \<open>t1.update(t2)\<close> and \<open>map_of t a\<close> is the lookup \<open>t[a]\<close>
  (\<open>None\<close> where Python raises \<open>KeyError\<close>). \<open>Tuple kvs\<close> is the constructor call
  \<open>Tuple(list_of_pairs)\<close>: it fills the dict and then hashes its items, which raises
  \<open>TypeError\<close> for a value that is not hashable. The tuples that a view returns may be
  plain dicts, which are not hashed.
\<close>

type_synonym tuple = "(attr \<times> val) list"

definition dict_update :: "('k \<times> 'v) list \<Rightarrow> ('k \<times> 'v) list \<Rightarrow> ('k \<times> 'v) list" where
  "dict_update t1 t2 = fold (\<lambda>(k, v). AList.update k v) t2 t1"

definition Tuple :: "(attr \<times> val) list \<Rightarrow> error + tuple" where
  "Tuple kvs =
     (let d = dict_update [] kvs
      in if list_all (\<lambda>(k, v). hashable v) d then Inr d else Inl TypeError)"

text \<open>\<open>dictToTuple(heading, d)\<close>: \<open>tuple([d[attr] for attr in heading])\<close>.\<close>

fun dictToTuple :: "attr list \<Rightarrow> tuple \<Rightarrow> error + val list" where
  "dictToTuple [] d = Inr []"
| "dictToTuple (a # as) d =
     (case map_of d a of
        None \<Rightarrow> Inl (KeyError a)
      | Some v \<Rightarrow> (case dictToTuple as d of Inl e \<Rightarrow> Inl e | Inr vs \<Rightarrow> Inr (v # vs)))"

text \<open>\<open>validateHeading\<close>: a non-empty heading must not repeat an attribute.\<close>

definition validateHeading :: "attr list \<Rightarrow> error option" where
  "validateHeading h = (if h \<noteq> [] \<and> length h \<noteq> card (set h) then Some RelationException else None)"

section \<open>The relation object (class Relation, Dee.py lines 294-582)\<close>

text \<open>
  The body of a relation is a list of rows or a function: a zero-argument view
  (\<open>NoArg\<close>, the value it returns or the exception it raises) or a one-argument function
  of the probing tuple (\<open>OneArg\<close>). A stored row holds its values in heading order; it is
  a Python tuple, or the list that \<open>_addToBody\<close> appends when it is handed a list
  (\<open>ListRow\<close>). The inverted index \<open>_headingInvert\<close> maps an attribute to a dict from
  values to sets of row positions. \<open>constraint_definitions\<close> is the persistent
  description of the constraints; the bound constraint functions (\<open>self.constraints\<close>)
  are closures over the relation object and are passed to the mutating operations as
  functions of the relation's current state. The value of the cached \<open>myhash\<close> is read by
  no operation modelled here and is not kept; computing it calls \<open>hash\<close> on a row, which
  raises \<open>TypeError\<close> for a list and for a tuple holding a value that is not hashable.
\<close>

datatype srow = TupleRow "val list" | ListRow "val list"

fun items :: "srow \<Rightarrow> val list" where
  "items (TupleRow t) = t"
| "items (ListRow t) = t"

fun hashable_row :: "srow \<Rightarrow> bool" where
  "hashable_row (TupleRow t) = list_all hashable t"
| "hashable_row (ListRow t) = False"

datatype body =
    Materialized "srow list"
  | NoArg "error + tuple list"
  | OneArg "tuple \<Rightarrow> error + tuple list"

datatype cdef =
    KeyDef "attr list option"
  | ForeignKeyDef string "(attr \<times> attr) list"
  | LambdaDef

type_synonym index = "attr \<rightharpoonup> (val \<rightharpoonup> nat set)"

record relation =
  r_heading :: "attr list"
  r_body :: body
  headingInvert :: index
  mapToOriginalHeading :: "(attr \<times> attr) list"
  constraint_definitions :: "(string \<times> cdef) list"

type_synonym constraints = "(string \<times> (relation \<Rightarrow> error + bool)) list"

text \<open>
  A row handed to the constructor or to a mutation is a dict (\<open>DRow\<close>), a tuple (\<open>TRow\<close>)
  or a list (\<open>LRow\<close>). \<open>row_in\<close> is a stored row handed on as it is.
\<close>

datatype rowin = DRow tuple | TRow "val list" | LRow "val list"

fun rowlen :: "rowin \<Rightarrow> nat" where
  "rowlen (DRow d) = length d"
| "rowlen (TRow t) = length t"
| "rowlen (LRow t) = length t"

fun row_in :: "srow \<Rightarrow> rowin" where
  "row_in (TupleRow t) = TRow t"
| "row_in (ListRow t) = LRow t"

text \<open>
  \<open>heading()\<close> is \<open>set(self._heading)\<close>. Where the code turns a set of attributes into
  a tuple or iterates over it, the model lists its elements once each, in one fixed
  order; Python leaves that order unspecified.
\<close>

definition heading :: "relation \<Rightarrow> attr list" where
  "heading r = remdups (r_heading r)"

definition common :: "relation \<Rightarrow> relation \<Rightarrow> attr list" where
  "common r rel = filter (\<lambda>a. a \<in> set (heading rel)) (heading r)"

definition is_callable :: "relation \<Rightarrow> bool" where
  "is_callable r = (case r_body r of Materialized b \<Rightarrow> False | _ \<Rightarrow> True)"

text \<open>The test \<open>co_argcount == 0 or (co_argcount == 1 and bound method)\<close>.\<close>

definition is_view :: "relation \<Rightarrow> bool" where
  "is_view r = (case r_body r of NoArg f \<Rightarrow> True | _ \<Rightarrow> False)"

subsection \<open>\<open>_hashfind\<close>\<close>

definition idx_get :: "(val \<rightharpoonup> nat set) \<Rightarrow> val \<Rightarrow> nat set" where
  "idx_get m v = (case m v of None \<Rightarrow> {} | Some s \<Rightarrow> s)"

definition narrow :: "nat set option \<Rightarrow> nat set \<Rightarrow> nat set" where
  "narrow rows s = (case rows of None \<Rightarrow> s | Some rs \<Rightarrow> rs \<inter> s)"

text \<open>
  The lookup \<open>self._headingInvert[attr].get(value, set())\<close> hashes the value. The loops
  stop at the first attribute that leaves no position.
\<close>

fun hashfind_dict :: "index \<Rightarrow> tuple \<Rightarrow> nat set option \<Rightarrow> error + nat set option" where
  "hashfind_dict ix [] rows = Inr rows"
| "hashfind_dict ix ((a, v) # kvs) rows =
     (case ix a of
        None \<Rightarrow> Inl (KeyError a)
      | Some m \<Rightarrow>
          if \<not> hashable v then Inl TypeError
          else
            (let rows' = narrow rows (idx_get m v)
             in if rows' = {} then Inr (Some rows') else hashfind_dict ix kvs (Some rows')))"

fun hashfind_seq :: "index \<Rightarrow> attr list \<Rightarrow> val list \<Rightarrow> nat set option \<Rightarrow> error + nat set option" where
  "hashfind_seq ix [] row rows = Inr rows"
| "hashfind_seq ix (a # as) [] rows = Inl IndexError"
| "hashfind_seq ix (a # as) (v # vs) rows =
     (case ix a of
        None \<Rightarrow> Inl (KeyError a)
      | Some m \<Rightarrow>
          if \<not> hashable v then Inl TypeError
          else
            (let rows' = narrow rows (idx_get m v)
             in if rows' = {} then Inr (Some rows') else hashfind_seq ix as vs (Some rows')))"

definition hashfind :: "relation \<Rightarrow> rowin \<Rightarrow> error + nat set" where
  "hashfind r row =
     (if heading r = [] \<and> rowlen row = 0 then
        (case r_body r of
           Materialized b \<Rightarrow> Inr (if length b = 1 then {0} else {})
         | _ \<Rightarrow> Inl TypeError)
      else
        ebind (case row of
                 DRow d \<Rightarrow> hashfind_dict (headingInvert r) d None
               | TRow t \<Rightarrow> hashfind_seq (headingInvert r) (r_heading r) t None
               | LRow t \<Rightarrow> hashfind_seq (headingInvert r) (r_heading r) t None)
          (\<lambda>rows. Inr (case rows of None \<Rightarrow> {} | Some s \<Rightarrow> s)))"

subsection \<open>\<open>_addToBody\<close>\<close>

text \<open>
  The type check of a row against the first stored row. In Python 3 the statement
  \<open>raise "Invalid type ..."\<close> itself raises \<open>TypeError\<close>.
\<close>

fun typecheck :: "val list \<Rightarrow> val list \<Rightarrow> error option" where
  "typecheck [] x = None"
| "typecheck (b # bs) [] = Some IndexError"
| "typecheck (b # bs) (x # xs) = (if type_of x = type_of b then typecheck bs xs else Some TypeError)"

definition typecheck_row :: "attr list \<Rightarrow> srow list \<Rightarrow> rowin \<Rightarrow> error option" where
  "typecheck_row h b row =
     (case b of
        [] \<Rightarrow> None
      | first # rest \<Rightarrow>
          (case row of
             TRow t \<Rightarrow> typecheck (items first) t
           | LRow t \<Rightarrow> typecheck (items first) t
           | DRow d \<Rightarrow>
               (if items first = [] then None
                else (case dictToTuple h d of Inl e \<Rightarrow> Some e | Inr t \<Rightarrow> typecheck (items first) t))))"

text \<open>The row that is appended: \<open>self._dictToTuple(row)\<close> for a dict, else the row itself.\<close>

definition as_stored :: "attr list \<Rightarrow> rowin \<Rightarrow> error + srow" where
  "as_stored h row =
     (case row of
        DRow d \<Rightarrow> (case dictToTuple h d of Inl e \<Rightarrow> Inl e | Inr t \<Rightarrow> Inr (TupleRow t))
      | TRow t \<Rightarrow> Inr (TupleRow t)
      | LRow t \<Rightarrow> Inr (ListRow t))"

text \<open>The loop "Update inverted references" for the row appended at position \<open>ri\<close>.\<close>

fun update_inverted :: "attr list \<Rightarrow> val list \<Rightarrow> nat \<Rightarrow> index \<Rightarrow> index \<times> error option" where
  "update_inverted [] row ri ix = (ix, None)"
| "update_inverted (a # as) [] ri ix = (ix, Some IndexError)"
| "update_inverted (a # as) (v # vs) ri ix =
     (case ix a of
        None \<Rightarrow> (ix, Some (KeyError a))
      | Some m \<Rightarrow>
          update_inverted as vs ri
            (ix(a \<mapsto> m(v \<mapsto> (case m v of None \<Rightarrow> {ri} | Some s \<Rightarrow> insert ri s)))))"

text \<open>
  One iteration of the loop of \<open>_addToBody\<close>. The result is the state of the relation
  after the iteration and the exception that ended it, if any. A row that is not found
  is appended, then hashed for \<open>myhash\<close>, then entered into the index: when \<open>hash\<close>
  raises, the row is in the body and not in the index.
\<close>

definition add_row :: "relation \<Rightarrow> rowin \<Rightarrow> relation \<times> error option" where
  "add_row r row =
     (case r_body r of
        Materialized b \<Rightarrow>
          (case typecheck_row (r_heading r) b row of
             Some e \<Rightarrow> (r, Some e)
           | None \<Rightarrow>
               (case hashfind r row of
                  Inl e \<Rightarrow> (r, Some e)
                | Inr found \<Rightarrow>
                    if found \<noteq> {} then (r, None)
                    else
                      (case as_stored (r_heading r) row of
                         Inl e \<Rightarrow> (r, Some e)
                       | Inr t \<Rightarrow>
                           if \<not> hashable_row t then (r\<lparr>r_body := Materialized (b @ [t])\<rparr>, Some TypeError)
                           else
                             (let ri = length b;
                                  res = update_inverted (r_heading r) (items t) ri (headingInvert r)
                              in (r\<lparr>r_body := Materialized (b @ [t]), headingInvert := fst res\<rparr>,
                                  snd res)))))
      | _ \<Rightarrow> (r, Some TypeError))"

fun add_rows :: "relation \<Rightarrow> rowin list \<Rightarrow> relation \<times> error option" where
  "add_rows r [] = (r, None)"
| "add_rows r (row # rows) =
     (case add_row r row of
        (r', Some e) \<Rightarrow> (r', Some e)
      | (r', None) \<Rightarrow> add_rows r' rows)"

subsection \<open>\<open>_removeFromBody\<close>\<close>

text \<open>
  "Keep lower pointers, shift higher row pointers down one and discard this pointer",
  applied to the position set of one index entry.
\<close>

definition shift_set :: "nat \<Rightarrow> nat set \<Rightarrow> nat set" where
  "shift_set ri riv =
     (if riv \<noteq> {} \<and> Max riv \<ge> ri
      then {ori \<in> riv. ori < ri} \<union> (\<lambda>cri. cri - 1) ` {cri \<in> riv. cri > ri}
      else riv)"

fun shift_inverted :: "attr list \<Rightarrow> nat \<Rightarrow> index \<Rightarrow> index \<times> error option" where
  "shift_inverted [] ri ix = (ix, None)"
| "shift_inverted (a # as) ri ix =
     (case ix a of
        None \<Rightarrow> (ix, Some (KeyError a))
      | Some m \<Rightarrow> shift_inverted as ri (ix(a \<mapsto> (\<lambda>v. map_option (shift_set ri) (m v)))))"

text \<open>
  One iteration of the loop of \<open>_removeFromBody\<close>. \<open>_recalc_hash\<close> runs for every
  row of the batch, found or not, and hashes every stored row.
\<close>

definition remove_row :: "relation \<Rightarrow> rowin \<Rightarrow> relation \<times> error option" where
  "remove_row r row =
     (case r_body r of
        Materialized b \<Rightarrow>
          (case typecheck_row (r_heading r) b row of
             Some e \<Rightarrow> (r, Some e)
           | None \<Rightarrow>
               (case hashfind r row of
                  Inl e \<Rightarrow> (r, Some e)
                | Inr found \<Rightarrow>
                    if \<not> list_all hashable_row b then (r, Some TypeError)
                    else if found = {} then (r, None)
                    else
                      (let ri = Min found in
                       if ri < length b then
                         (let res = shift_inverted (r_heading r) ri (headingInvert r)
                          in (r\<lparr>r_body := Materialized (take ri b @ drop (Suc ri) b),
                                 headingInvert := fst res\<rparr>, snd res))
                       else (r, Some IndexError))))
      | _ \<Rightarrow> (r, Some TypeError))"

fun remove_rows :: "relation \<Rightarrow> rowin list \<Rightarrow> relation \<times> error option" where
  "remove_rows r [] = (r, None)"
| "remove_rows r (row # rows) =
     (case remove_row r row of
        (r', Some e) \<Rightarrow> (r', Some e)
      | (r', None) \<Rightarrow> remove_rows r' rows)"

subsection \<open>Constraint checking and the compensating calls\<close>

fun checkConstraints :: "constraints \<Rightarrow> relation \<Rightarrow> error option" where
  "checkConstraints [] r = None"
| "checkConstraints ((rn, rf) # cs) r =
     (case rf r of
        Inl e \<Rightarrow> Some e
      | Inr ok \<Rightarrow> if ok then checkConstraints cs r else Some (RelationConstraintException rn))"

definition addToBody :: "constraints \<Rightarrow> rowin list \<Rightarrow> bool \<Rightarrow> relation \<Rightarrow> relation \<times> error option" where
  "addToBody cs rows nocheck r =
     (case add_rows r rows of
        (r1, Some e) \<Rightarrow> (r1, Some e)
      | (r1, None) \<Rightarrow>
          if nocheck then (r1, None)
          else
            (case checkConstraints cs r1 of
               None \<Rightarrow> (r1, None)
             | Some e \<Rightarrow>
                 (case remove_rows r1 rows of
                    (r2, Some e') \<Rightarrow> (r2, Some e')
                  | (r2, None) \<Rightarrow> (r2, Some e))))"

definition removeFromBody :: "constraints \<Rightarrow> rowin list \<Rightarrow> bool \<Rightarrow> relation \<Rightarrow> relation \<times> error option" where
  "removeFromBody cs rows nocheck r =
     (case remove_rows r rows of
        (r1, Some e) \<Rightarrow> (r1, Some e)
      | (r1, None) \<Rightarrow>
          if nocheck then (r1, None)
          else
            (case checkConstraints cs r1 of
               None \<Rightarrow> (r1, None)
             | Some e \<Rightarrow>
                 (case add_rows r1 rows of
                    (r2, Some e') \<Rightarrow> (r2, Some e')
                  | (r2, None) \<Rightarrow> (r2, Some e))))"

subsection \<open>\<open>setBody\<close> and the constructor\<close>

text \<open>
  \<open>setBody\<close> with a list: the body and the index are reset, then the rows are added and
  the constraints checked.
\<close>

definition empty_index :: "attr list \<Rightarrow> index" where
  "empty_index h = map_of (map (\<lambda>a. (a, Map.empty)) (rev h))"

definition setBody :: "constraints \<Rightarrow> rowin list \<Rightarrow> relation \<Rightarrow> relation \<times> error option" where
  "setBody cs rows r =
     addToBody cs rows False
       (r\<lparr>r_body := Materialized [], headingInvert := empty_index (r_heading r)\<rparr>)"

definition setBody_callable :: "body \<Rightarrow> relation \<Rightarrow> relation" where
  "setBody_callable f r = r\<lparr>r_body := f, mapToOriginalHeading := []\<rparr>"

definition blank :: "attr list \<Rightarrow> (string \<times> cdef) list \<Rightarrow> relation" where
  "blank h cdefs =
     \<lparr>r_heading = h, r_body = Materialized [], headingInvert = Map.empty,
      mapToOriginalHeading = [], constraint_definitions = cdefs\<rparr>"

text \<open>
  \<open>Relation(heading, rows, constraints)\<close> with a list of rows: \<open>cdefs\<close> are the declared
  constraints and \<open>cs\<close> the functions bound from them. An exception leaves the
  constructor, so no object is returned.
\<close>

definition Relation_rows :: "constraints \<Rightarrow> (string \<times> cdef) list \<Rightarrow> attr list \<Rightarrow> rowin list \<Rightarrow> error + relation" where
  "Relation_rows cs cdefs h rows =
     (case validateHeading h of
        Some e \<Rightarrow> Inl e
      | None \<Rightarrow>
          (case setBody cs rows (blank h cdefs) of
             (r, Some e) \<Rightarrow> Inl e
           | (r, None) \<Rightarrow> Inr r))"

definition Relation_callable :: "(string \<times> cdef) list \<Rightarrow> attr list \<Rightarrow> body \<Rightarrow> error + relation" where
  "Relation_callable cdefs h f =
     (case validateHeading h of
        Some e \<Rightarrow> Inl e
      | None \<Rightarrow> Inr (setBody_callable f (blank h cdefs)))"

text \<open>
  The default constraints \<open>{"PK": (Key, None)}\<close>: the bound function of a key over all
  attributes returns \<open>True\<close> without reading the relation.
\<close>

definition default_cdefs :: "(string \<times> cdef) list" where
  "default_cdefs = [(''PK'', KeyDef None)]"

definition default_constraints :: constraints where
  "default_constraints = [(''PK'', \<lambda>r. Inr True)]"

definition Relation0 :: "attr list \<Rightarrow> rowin list \<Rightarrow> error + relation" where
  "Relation0 h rows = Relation_rows default_constraints default_cdefs h rows"

definition Relation0_callable :: "attr list \<Rightarrow> body \<Rightarrow> error + relation" where
  "Relation0_callable h f = Relation_callable default_cdefs h f"

section \<open>Scanning (\<open>_scan\<close>, Dee.py lines 584-682)\<close>

text \<open>
  \<open>_scan\<close> is a generator. Its model is the list of tuples it yields and the exception
  that ends it, if any; a consumer that stops early never sees that exception.
\<close>

type_synonym scan = "tuple list \<times> error option"

definition view_result :: "error + tuple list \<Rightarrow> scan" where
  "view_result x = (case x of Inl e \<Rightarrow> ([], Some e) | Inr ts \<Rightarrow> (ts, None))"

text \<open>The scan of a stored body: \<open>yield Tuple(list(zip(self._heading, tup)))\<close> for each row.\<close>

fun scan_rows :: "attr list \<Rightarrow> srow list \<Rightarrow> scan" where
  "scan_rows h [] = ([], None)"
| "scan_rows h (tup # b) =
     (case Tuple (zip h (items tup)) of
        Inl e \<Rightarrow> ([], Some e)
      | Inr t \<Rightarrow> (let res = scan_rows h b in (t # fst res, snd res)))"

text \<open>The full scan, \<open>_scan()\<close>.\<close>

definition scan_all :: "relation \<Rightarrow> scan" where
  "scan_all r =
     (case r_body r of
        Materialized b \<Rightarrow> scan_rows (r_heading r) b
      | NoArg f \<Rightarrow> view_result f
      | OneArg f \<Rightarrow> ([], Some RelationInvalidOperationException))"

text \<open>The manual join filter over the tuples of a view.\<close>

fun join_match :: "attr list \<Rightarrow> tuple \<Rightarrow> tuple \<Rightarrow> error + bool" where
  "join_match [] reltupl tup = Inr True"
| "join_match (a # as) reltupl tup =
     (case map_of reltupl a of
        None \<Rightarrow> Inl (KeyError a)
      | Some x \<Rightarrow>
          (case map_of tup a of
             None \<Rightarrow> Inl (KeyError a)
           | Some y \<Rightarrow> if x \<noteq> y then Inr False else join_match as reltupl tup))"

fun filter_join :: "attr list \<Rightarrow> tuple \<Rightarrow> tuple list \<Rightarrow> scan" where
  "filter_join com reltupl [] = ([], None)"
| "filter_join com reltupl (t # ts) =
     (case join_match com reltupl t of
        Inl e \<Rightarrow> ([], Some e)
      | Inr ok \<Rightarrow>
          (let res = filter_join com reltupl ts
           in (if ok then t # fst res else fst res, snd res)))"

text \<open>The renaming of the probe and of the results of a renamed one-argument function.\<close>

definition strip_originals :: "(attr \<times> attr) list \<Rightarrow> tuple \<Rightarrow> tuple" where
  "strip_originals m reltupl = fold (\<lambda>v t. AList.delete v t) (map snd m) reltupl"

definition alias_to_original :: "(attr \<times> attr) list \<Rightarrow> tuple \<Rightarrow> tuple" where
  "alias_to_original m reltupl =
     fold (\<lambda>(k, v) t. case map_of t k of None \<Rightarrow> t | Some x \<Rightarrow> AList.delete k (AList.update v x t))
       m reltupl"

definition original_to_alias :: "(attr \<times> attr) list \<Rightarrow> tuple \<Rightarrow> tuple" where
  "original_to_alias m tup =
     fold (\<lambda>(k, v) t. case map_of t v of None \<Rightarrow> t | Some x \<Rightarrow> AList.delete v (AList.update k x t))
       m tup"

text \<open>The "optimised hash join" over the inverted index.\<close>

fun probe_rows :: "index \<Rightarrow> attr list \<Rightarrow> tuple \<Rightarrow> nat set option \<Rightarrow> error + nat set option" where
  "probe_rows ix [] reltupl rows = Inr rows"
| "probe_rows ix (a # as) reltupl rows =
     (case ix a of
        None \<Rightarrow> Inl (KeyError a)
      | Some m \<Rightarrow>
          (case map_of reltupl a of
             None \<Rightarrow> Inl (KeyError a)
           | Some v \<Rightarrow> probe_rows ix as reltupl (Some (narrow rows (idx_get m v)))))"

fun yield_rows :: "attr list \<Rightarrow> srow list \<Rightarrow> nat list \<Rightarrow> scan" where
  "yield_rows h b [] = ([], None)"
| "yield_rows h b (i # is) =
     (if i < length b
      then (case Tuple (zip h (items (b ! i))) of
              Inl e \<Rightarrow> ([], Some e)
            | Inr t \<Rightarrow> (let res = yield_rows h b is in (t # fst res, snd res)))
      else ([], Some IndexError))"

text \<open>
  The join scan, \<open>_scan(rel)\<close>, where \<open>rel\<close> holds the single probing tuple. The
  positions found in the index are visited in increasing order.
\<close>

definition scan_rel :: "relation \<Rightarrow> relation \<Rightarrow> scan" where
  "scan_rel r rel =
     (let com = common r rel in
      if com = [] then
        (case r_body r of
           NoArg f \<Rightarrow> view_result f
         | OneArg f \<Rightarrow> view_result (ebind (Tuple []) f)
         | Materialized b \<Rightarrow> scan_rows (r_heading r) b)
      else
        (case r_body rel of
           Materialized rb \<Rightarrow>
             if length rb \<noteq> 1 then ([], Some AssertionError)
             else
               (case Tuple (zip (r_heading rel) (items (hd rb))) of
                  Inl e \<Rightarrow> ([], Some e)
                | Inr reltupl \<Rightarrow>
                    (case r_body r of
                       NoArg f \<Rightarrow>
                         (case f of Inl e \<Rightarrow> ([], Some e) | Inr ts \<Rightarrow> filter_join com reltupl ts)
                     | OneArg f \<Rightarrow>
                         (let m = mapToOriginalHeading r in
                          view_result
                            (ebind (f (alias_to_original m (strip_originals m reltupl)))
                               (\<lambda>ts. Inr (map (original_to_alias m) ts))))
                     | Materialized b \<Rightarrow>
                         (case probe_rows (headingInvert r) com reltupl None of
                            Inl e \<Rightarrow> ([], Some e)
                          | Inr None \<Rightarrow> ([], Some TypeError)
                          | Inr (Some rows) \<Rightarrow> yield_rows (r_heading r) b (sorted_list_of_set rows))))
         | _ \<Rightarrow> ([], Some TypeError)))"

text \<open>A loop that runs a generator to its end: \<open>[dictToTuple(Hs, tr) for tr in scan]\<close>.\<close>

fun rows_of :: "attr list \<Rightarrow> tuple list \<Rightarrow> error + val list list" where
  "rows_of Hs [] = Inr []"
| "rows_of Hs (t # ts) =
     (case dictToTuple Hs t of
        Inl e \<Rightarrow> Inl e
      | Inr row \<Rightarrow> (case rows_of Hs ts of Inl e \<Rightarrow> Inl e | Inr rows \<Rightarrow> Inr (row # rows)))"

definition consume :: "attr list \<Rightarrow> scan \<Rightarrow> error + val list list" where
  "consume Hs res =
     ebind (rows_of Hs (fst res)) (\<lambda>rows. case snd res of Some e \<Rightarrow> Inl e | None \<Rightarrow> Inr rows)"

section \<open>The primitive operators (Dee.py lines 1240-1425)\<close>

definition body_len :: "relation \<Rightarrow> nat" where
  "body_len r = (case r_body r of Materialized b \<Rightarrow> length b | _ \<Rightarrow> 0)"

text \<open>
  The loops of \<open>AND\<close>. \<open>relType\<close> is reset to the single driving tuple before each
  probe; \<open>tr1.update(tr2)\<close> changes the driving tuple for the rest of the inner loop.
\<close>

fun and_inner :: "attr list \<Rightarrow> tuple \<Rightarrow> tuple list \<Rightarrow> error + val list list" where
  "and_inner Hs tr1 [] = Inr []"
| "and_inner Hs tr1 (tr2 # ts) =
     (let tr1' = dict_update tr1 tr2 in
      ebind (dictToTuple Hs tr1')
        (\<lambda>row. ebind (and_inner Hs tr1' ts) (\<lambda>rows. Inr (row # rows))))"

definition and_probe :: "attr list \<Rightarrow> relation \<Rightarrow> relation \<Rightarrow> tuple \<Rightarrow> error + val list list" where
  "and_probe Hs relType r2 tr1 =
     (case setBody default_constraints [DRow tr1] relType of
        (rt, Some e) \<Rightarrow> Inl e
      | (rt, None) \<Rightarrow>
          (let res = scan_rel r2 rt in
           ebind (and_inner Hs tr1 (fst res))
             (\<lambda>rows. case snd res of Some e \<Rightarrow> Inl e | None \<Rightarrow> Inr rows)))"

fun and_outer :: "attr list \<Rightarrow> relation \<Rightarrow> relation \<Rightarrow> tuple list \<Rightarrow> error + val list list" where
  "and_outer Hs relType r2 [] = Inr []"
| "and_outer Hs relType r2 (tr1 # ts) =
     ebind (and_probe Hs relType r2 tr1)
       (\<lambda>rows. ebind (and_outer Hs relType r2 ts) (\<lambda>rest. Inr (rows @ rest)))"

definition AND_loop :: "relation \<Rightarrow> relation \<Rightarrow> error + relation" where
  "AND_loop r1 r2 =
     (let Hs = remdups (heading r1 @ heading r2) in
      ebind (Relation0 (r_heading r1) [])
        (\<lambda>relType.
           (let res = scan_all r1 in
            ebind (and_outer Hs relType r2 (fst res))
              (\<lambda>Bs. case snd res of
                       Some e \<Rightarrow> Inl e
                     | None \<Rightarrow> Relation0 Hs (map TRow Bs)))))"

text \<open>\<open>AND\<close>: the order optimisation calls \<open>AND(r2, r1)\<close>, then the join loop runs.\<close>

function AND :: "relation \<Rightarrow> relation \<Rightarrow> error + relation" where
  "AND r1 r2 =
     (if is_callable r1 \<and> \<not> is_callable r2 then AND r2 r1
      else if is_callable r1 \<and> \<not> is_view r1 \<and> is_view r2 then AND r2 r1
      else if is_callable r1 \<and> \<not> is_view r1 then Inl RelationInvalidOperationException
      else if \<not> is_callable r2 \<and> body_len r1 > body_len r2 then AND r2 r1
      else AND_loop r1 r2)"
  by pat_completeness auto
termination
  by (relation "measure (\<lambda>(r1, r2).
        if is_callable r1 \<and> \<not> is_callable r2 then 1
        else if is_callable r1 \<and> \<not> is_view r1 \<and> is_view r2 then 1
        else if is_callable r1 \<and> \<not> is_view r1 then 0
        else if \<not> is_callable r2 \<and> body_len r1 > body_len r2 then 1
        else 0)")
     (auto simp: is_view_def is_callable_def split: body.splits)

text \<open>\<open>OR\<close>: the union of two relations with the same heading.\<close>

definition OR_loop :: "relation \<Rightarrow> relation \<Rightarrow> error + relation" where
  "OR_loop r1 r2 =
     (let Hs = remdups (heading r1 @ heading r2) in
      ebind (consume Hs (scan_all r1))
        (\<lambda>B1. ebind (consume Hs (scan_all r2))
           (\<lambda>B2. Relation0 Hs (map TRow (B1 @ B2)))))"

function OR :: "relation \<Rightarrow> relation \<Rightarrow> error + relation" where
  "OR r1 r2 =
     (if set (heading r1) \<noteq> set (heading r2) then Inl RelationInvalidOperationException
      else if is_callable r1 \<and> \<not> is_callable r2 then OR r2 r1
      else if is_callable r1 \<and> \<not> is_view r1 \<and> is_view r2 then OR r2 r1
      else if is_callable r1 \<and> \<not> is_view r1 then Inl RelationInvalidOperationException
      else OR_loop r1 r2)"
  by pat_completeness auto
termination
  by (relation "measure (\<lambda>(r1, r2).
        if set (heading r1) \<noteq> set (heading r2) then 0
        else if is_callable r1 \<and> \<not> is_callable r2 then 1
        else if is_callable r1 \<and> \<not> is_view r1 \<and> is_view r2 then 1
        else 0)")
     (auto simp: is_view_def is_callable_def split: body.splits)

text \<open>
  \<open>MINUS\<close>: a tuple of \<open>r1\<close> is kept when the probe of \<open>r2\<close> yields nothing; the probe
  stops at its first tuple.
\<close>

definition minus_probe :: "relation \<Rightarrow> relation \<Rightarrow> tuple \<Rightarrow> error + bool" where
  "minus_probe relType r2 tr1 =
     (case setBody default_constraints [DRow tr1] relType of
        (rt, Some e) \<Rightarrow> Inl e
      | (rt, None) \<Rightarrow>
          (case scan_rel r2 rt of
             (t # ts, err) \<Rightarrow> Inr False
           | ([], Some e) \<Rightarrow> Inl e
           | ([], None) \<Rightarrow> Inr True))"

fun minus_outer :: "relation \<Rightarrow> relation \<Rightarrow> tuple list \<Rightarrow> error + tuple list" where
  "minus_outer relType r2 [] = Inr []"
| "minus_outer relType r2 (tr1 # ts) =
     ebind (minus_probe relType r2 tr1)
       (\<lambda>keep. ebind (minus_outer relType r2 ts)
          (\<lambda>rest. Inr (if keep then tr1 # rest else rest)))"

definition MINUS_loop :: "relation \<Rightarrow> relation \<Rightarrow> error + relation" where
  "MINUS_loop r1 r2 =
     ebind (Relation0 (r_heading r1) [])
       (\<lambda>relType.
          (let res = scan_all r1 in
           ebind (minus_outer relType r2 (fst res))
             (\<lambda>Bs. case snd res of
                      Some e \<Rightarrow> Inl e
                    | None \<Rightarrow> Relation0 (r_heading r1) (map DRow Bs))))"

function MINUS :: "relation \<Rightarrow> relation \<Rightarrow> error + relation" where
  "MINUS r1 r2 =
     (if set (heading r1) \<noteq> set (heading r2) then Inl RelationInvalidOperationException
      else if is_callable r1 \<and> \<not> is_callable r2 then MINUS r2 r1
      else if is_callable r1 \<and> \<not> is_view r1 \<and> is_view r2 then MINUS r2 r1
      else if is_callable r1 \<and> \<not> is_view r1 then Inl RelationInvalidOperationException
      else MINUS_loop r1 r2)"
  by pat_completeness auto
termination
  by (relation "measure (\<lambda>(r1, r2).
        if set (heading r1) \<noteq> set (heading r2) then 0
        else if is_callable r1 \<and> \<not> is_callable r2 then 1
        else if is_callable r1 \<and> \<not> is_view r1 \<and> is_view r2 then 1
        else 0)")
     (auto simp: is_view_def is_callable_def split: body.splits)

text \<open>
  \<open>REMOVE\<close>: the key constraints that survive are recorded on the result without being
  checked.
\<close>

definition key_survives :: "attr list \<Rightarrow> string \<times> cdef \<Rightarrow> bool" where
  "key_survives Hs c =
     (case snd c of
        KeyDef p \<Rightarrow> (case p of None \<Rightarrow> True | Some hk \<Rightarrow> hk = [] \<or> set hk \<subseteq> set Hs)
      | _ \<Rightarrow> False)"

definition REMOVE :: "relation \<Rightarrow> attr list \<Rightarrow> error + relation" where
  "REMOVE r Hr =
     (let Hs = filter (\<lambda>a. a \<notin> set Hr) (heading r) in
      ebind (consume Hs (scan_all r))
        (\<lambda>Bs. ebind (Relation0 Hs (map TRow Bs))
           (\<lambda>res. (let kept = filter (key_survives Hs) (constraint_definitions r)
                  in Inr (if kept \<noteq> [] then res\<lparr>constraint_definitions := kept\<rparr> else res)))))"

definition project :: "relation \<Rightarrow> attr list \<Rightarrow> error + relation" where
  "project r head =
     (case validateHeading head of
        Some e \<Rightarrow> Inl e
      | None \<Rightarrow>
          if filter (\<lambda>a. a \<notin> set (heading r)) head \<noteq> [] then Inl RelationInvalidOperationException
          else REMOVE r (filter (\<lambda>a. a \<notin> set head) (heading r)))"

text \<open>\<open>COUNT(r)\<close>, called with the relation alone, and \<open>IS_EMPTY\<close>.\<close>

definition COUNT :: "relation \<Rightarrow> error + nat" where
  "COUNT r = (case scan_all r of (ts, Some e) \<Rightarrow> Inl e | (ts, None) \<Rightarrow> Inr (length ts))"

definition IS_EMPTY :: "relation \<Rightarrow> error + bool" where
  "IS_EMPTY r = ebind (COUNT r) (\<lambda>n. Inr (n = 0))"

text \<open>The comparisons \<open>__eq__\<close>, \<open>__le__\<close> and \<open>__ge__\<close>.\<close>

definition rel_eq :: "relation \<Rightarrow> relation \<Rightarrow> error + bool" where
  "rel_eq r rel =
     (if set (heading r) = set (heading rel) then
        ebind (MINUS r rel)
          (\<lambda>d. ebind (IS_EMPTY d)
             (\<lambda>e. if e then ebind (COUNT r) (\<lambda>n. ebind (COUNT rel) (\<lambda>m. Inr (n = m)))
                  else Inr False))
      else Inr False)"

definition rel_le :: "relation \<Rightarrow> relation \<Rightarrow> error + bool" where
  "rel_le r rel =
     (if set (heading r) = set (heading rel) then
        ebind (AND r rel) (\<lambda>j. ebind (MINUS r j) (\<lambda>d. IS_EMPTY d))
      else Inr False)"

definition rel_ge :: "relation \<Rightarrow> relation \<Rightarrow> error + bool" where
  "rel_ge r rel = rel_le rel r"

section \<open>Constraints, renaming and in-place mutation\<close>

text \<open>
  The function returned by \<open>constraintFromCandidateKeyFactory\<close>, applied to the current
  state of its relation.
\<close>

definition constraintFromCandidateKey :: "attr list option \<Rightarrow> relation \<Rightarrow> error + bool" where
  "constraintFromCandidateKey Hk r =
     (case Hk of
        None \<Rightarrow> Inr True
      | Some hk \<Rightarrow>
          ebind (COUNT r)
            (\<lambda>n. ebind (project r hk) (\<lambda>p. ebind (COUNT p) (\<lambda>m. Inr (n = m)))))"

text \<open>
  \<open>rename\<close>: only key constraints are carried over, over the renamed attributes; they
  are bound and checked by the constructor of the result.
\<close>

definition newname :: "(attr \<times> attr) list \<Rightarrow> attr \<Rightarrow> attr" where
  "newname newnames c = (case map_of newnames c of None \<Rightarrow> c | Some n \<Rightarrow> n)"

fun rename_cdefs :: "(attr \<times> attr) list \<Rightarrow> (string \<times> cdef) list \<Rightarrow> (string \<times> attr list option) list" where
  "rename_cdefs newnames [] = []"
| "rename_cdefs newnames ((cname, KeyDef p) # cds) =
     dict_update
       [(cname, (case p of
                   None \<Rightarrow> None
                 | Some hk \<Rightarrow> if hk = [] then Some hk else Some (map (newname newnames) hk)))]
       (rename_cdefs newnames cds)"
| "rename_cdefs newnames ((cname, other) # cds) = rename_cdefs newnames cds"

definition rename :: "relation \<Rightarrow> (attr \<times> attr) list \<Rightarrow> error + relation" where
  "rename r newnames =
     (if filter (\<lambda>k. k \<notin> set (heading r)) (map fst newnames) \<noteq> []
      then Inl RelationInvalidOperationException
      else
        (let h = map (newname newnames) (r_heading r) in
         case validateHeading h of
           Some e \<Rightarrow> Inl e
         | None \<Rightarrow>
             (let keys = rename_cdefs newnames (constraint_definitions r);
                  cdefs = map (\<lambda>(cname, p). (cname, KeyDef p)) keys;
                  cs = map (\<lambda>(cname, p). (cname, constraintFromCandidateKey p)) keys
              in case r_body r of
                   Materialized b \<Rightarrow> Relation_rows cs cdefs h (map row_in b)
                 | f \<Rightarrow>
                     ebind (Relation_callable cdefs h f)
                       (\<lambda>s. Inr (s\<lparr>mapToOriginalHeading :=
                                     fold (\<lambda>(k, v) m.
                                             AList.delete k
                                               (AList.update v
                                                  (case map_of m k of None \<Rightarrow> k | Some orig \<Rightarrow> orig) m))
                                       newnames (mapToOriginalHeading s)\<rparr>)))))"

text \<open>\<open>Relation.fromTuple\<close>, with the default constraints.\<close>

definition fromTuple :: "tuple \<Rightarrow> error + relation" where
  "fromTuple tr = Relation0 (map fst tr) [TRow (map snd tr)]"

text \<open>
  \<open>insert\<close> (\<open>__ior__\<close>) and \<open>delete\<close> (\<open>__isub__\<close>) with a relation as argument. They
  change the relation in place: the result is its state after the call and the exception
  raised, if any.
\<close>

definition insert_rel :: "constraints \<Rightarrow> relation \<Rightarrow> relation \<Rightarrow> relation \<times> error option" where
  "insert_rel cs r rel =
     (if is_callable r then (r, Some RelationInvalidOperationException)
      else if set (heading r) \<noteq> set (heading rel) then (r, Some RelationInvalidOperationException)
      else
        (case consume (r_heading r) (scan_all rel) of
           Inl e \<Rightarrow> (r, Some e)
         | Inr Bs \<Rightarrow> addToBody cs (map TRow Bs) False r))"

definition delete_rel :: "constraints \<Rightarrow> relation \<Rightarrow> relation \<Rightarrow> relation \<times> error option" where
  "delete_rel cs r rel =
     (if is_callable r then (r, Some RelationInvalidOperationException)
      else if set (heading r) \<noteq> set (heading rel) then (r, Some RelationInvalidOperationException)
      else
        (case consume (r_heading r) (scan_all rel) of
           Inl e \<Rightarrow> (r, Some e)
         | Inr Bs \<Rightarrow> removeFromBody cs (map TRow Bs) False r))"

text \<open>
  The function returned by \<open>constraintFromForeignKeyFactory\<close>: the referenced relation
  is looked up by name in the scope each time the constraint is evaluated.
\<close>

type_synonym scope = "string \<rightharpoonup> relation"

definition constraintFromForeignKey :: "scope \<Rightarrow> string \<Rightarrow> (attr \<times> attr) list \<Rightarrow> relation \<Rightarrow> error + bool" where
  "constraintFromForeignKey sc r2 fkmap r1 =
     (case sc r2 of
        None \<Rightarrow> Inl (NameError r2)
      | Some referenced \<Rightarrow>
          ebind (project referenced (map snd fkmap))
            (\<lambda>target. ebind (project r1 (map fst fkmap))
               (\<lambda>p1. ebind (rename p1 fkmap)
                  (\<lambda>p2. ebind (project p2 (map snd fkmap))
                     (\<lambda>source. rel_ge target source)))))"

section \<open>The macros used below (Dee.py lines 1216-1232 and 1429-1713)\<close>

definition relationFromCondition :: "(tuple \<Rightarrow> error + bool) \<Rightarrow> tuple \<Rightarrow> error + tuple list" where
  "relationFromCondition f trx =
     ebind (f trx) (\<lambda>ok. if ok then ebind (Tuple []) (\<lambda>t. Inr [t]) else Inr [])"

definition relationFromExtension :: "(tuple \<Rightarrow> error + tuple) \<Rightarrow> tuple \<Rightarrow> error + tuple list" where
  "relationFromExtension f trx = ebind (f trx) (\<lambda>t. Inr [t])"

definition COMPOSE :: "relation \<Rightarrow> relation \<Rightarrow> error + relation" where
  "COMPOSE r1 r2 =
     (let A = filter (\<lambda>a. a \<in> set (heading r2)) (heading r1)
      in ebind (AND r1 r2) (\<lambda>j. REMOVE j A))"

definition RESTRICT :: "relation \<Rightarrow> (tuple \<Rightarrow> error + bool) \<Rightarrow> error + relation" where
  "RESTRICT r restriction =
     ebind (Relation0_callable (r_heading r) (OneArg (relationFromCondition restriction)))
       (\<lambda>c. AND r c)"

definition EXTEND :: "relation \<Rightarrow> attr list \<Rightarrow> (tuple \<Rightarrow> error + tuple) \<Rightarrow> error + relation" where
  "EXTEND r Hextension extension =
     (let extheading = remdups Hextension in
      case validateHeading extheading of
        Some e \<Rightarrow> Inl e
      | None \<Rightarrow>
          if filter (\<lambda>a. a \<in> set extheading) (heading r) \<noteq> []
          then Inl RelationInvalidOperationException
          else
            ebind (Relation0_callable (remdups (heading r @ extheading))
                     (OneArg (relationFromExtension extension)))
              (\<lambda>x. AND r x))"

text \<open>Attribute access on a tuple, \<open>t.a\<close> and \<open>t[a]\<close>.\<close>

definition getattr :: "tuple \<Rightarrow> attr \<Rightarrow> error + val" where
  "getattr t a = (case map_of t a of None \<Rightarrow> Inl (AttributeError a) | Some v \<Rightarrow> Inr v)"

definition getitem :: "tuple \<Rightarrow> attr \<Rightarrow> error + val" where
  "getitem t a = (case map_of t a of None \<Rightarrow> Inl (KeyError a) | Some v \<Rightarrow> Inr v)"

text \<open>
  \<open>QUOTA\<close>. The restriction inside the extension is the chained comparison
  \<open>[u["_" + x] for x in Hr] == [t[x] for x in Hr] == res\<close>, which Python evaluates as
  \<open>A == B and B == res\<close> with \<open>B\<close> a list and \<open>res\<close> the integer \<open>-1\<close> or \<open>+1\<close>;
  a list is never equal to an integer.
\<close>

fun getitems :: "tuple \<Rightarrow> attr list \<Rightarrow> error + val list" where
  "getitems t [] = Inr []"
| "getitems t (a # as) =
     ebind (getitem t a) (\<lambda>v. ebind (getitems t as) (\<lambda>vs. Inr (v # vs)))"

definition py_list_eq_int :: "val list \<Rightarrow> int \<Rightarrow> bool" where
  "py_list_eq_int xs i = False"

definition quota_restriction :: "attr list \<Rightarrow> int \<Rightarrow> tuple \<Rightarrow> tuple \<Rightarrow> error + bool" where
  "quota_restriction Hr res t u =
     ebind (getitems u (map (\<lambda>x. ''_'' @ x) Hr))
       (\<lambda>A. ebind (getitems t Hr) (\<lambda>B. Inr (A = B \<and> py_list_eq_int B res)))"

definition quota_higher :: "relation \<Rightarrow> attr list \<Rightarrow> int \<Rightarrow> tuple \<Rightarrow> error + tuple" where
  "quota_higher r Hr res t =
     ebind (rename r (dict_update [] (zip Hr (map (\<lambda>x. ''_'' @ x) Hr))))
       (\<lambda>renamed. ebind (RESTRICT renamed (quota_restriction Hr res t))
          (\<lambda>w. ebind (COUNT w) (\<lambda>n. Inr [(''_higher'', IntV (int n))])))"

definition less_than :: "val \<Rightarrow> int \<Rightarrow> error + bool" where
  "less_than v limit = (case v of IntV i \<Rightarrow> Inr (i < limit) | _ \<Rightarrow> Inl TypeError)"

definition QUOTA :: "relation \<Rightarrow> int \<Rightarrow> attr list option \<Rightarrow> bool \<Rightarrow> error + relation" where
  "QUOTA r limit Hr asc =
     (case Hr of
        None \<Rightarrow> Inl RelationInvalidOperationException
      | Some hr \<Rightarrow>
          if length hr = 0 then Inl RelationInvalidOperationException
          else
            (let res = (if asc then - 1 else 1) in
             ebind (EXTEND r [''_higher''] (quota_higher r hr res))
               (\<lambda>x. ebind (RESTRICT x (\<lambda>t. ebind (getattr t ''_higher'') (\<lambda>h. less_than h limit)))
                  (\<lambda>w. REMOVE w [''_higher'']))))"

text \<open>
  \<open>TCLOSE\<close>. \<open>_X, _Y = r.heading()\<close> unpacks a set, in an order that Python does not
  specify: \<open>flip\<close> decides, for each heading, which attribute is \<open>_X\<close>. The recursion
  has no bound, so a call that never reaches its fixpoint has the value \<open>None\<close>.
\<close>

definition TCLOSE_step :: "(attr list \<Rightarrow> bool) \<Rightarrow> relation \<Rightarrow> error + relation" where
  "TCLOSE_step flip r =
     (let h = heading r;
          X = (if flip h then h ! 1 else h ! 0);
          Y = (if flip h then h ! 0 else h ! 1)
      in ebind (rename r (dict_update [] [(Y, ''_Z''), (X, Y)]))
           (\<lambda>r'. ebind (COMPOSE r r')
              (\<lambda>c. ebind (rename c (dict_update [] [(''_Z'', Y)]))
                 (\<lambda>c'. OR r c'))))"

partial_function (option) TCLOSE :: "(attr list \<Rightarrow> bool) \<Rightarrow> relation \<Rightarrow> (error + relation) option" where
  "TCLOSE flip r =
     (if length (heading r) \<noteq> 2 then Some (Inl RelationInvalidOperationException)
      else
        (case TCLOSE_step flip r of
           Inl e \<Rightarrow> Some (Inl e)
         | Inr TTT \<Rightarrow>
             (case rel_eq TTT r of
                Inl e \<Rightarrow> Some (Inl e)
              | Inr same \<Rightarrow> if same then Some (Inr TTT) else TCLOSE flip TTT)))"

section \<open>Aggregates (Dee.py lines 1717-1752)\<close>

text \<open>
  An expression argument is any Python object. \<open>AVG\<close> reads
  \<open>expression.__code__.co_consts\<close> before it scans, so three kinds of argument differ:
  a Python function (\<open>Function c f\<close>: \<open>c\<close> is the test
  \<open>expression.__code__.co_consts == (None,)\<close> and \<open>f\<close> what a call returns or raises),
  a callable that has no attribute \<open>__code__\<close> such as \<open>operator.itemgetter\<close>,
  \<open>functools.partial\<close> or a builtin (\<open>Builtin f\<close>), and an object that is not
  callable, such as \<open>None\<close> (\<open>NotCallable\<close>). The default is \<open>lambda trx: None\<close>.
  \<open>AVG\<close> adds integers; the quotient \<open>v / float(n)\<close> is modelled without rounding.
\<close>

datatype expression =
    Function bool "tuple \<Rightarrow> error + val"
  | Builtin "tuple \<Rightarrow> error + val"
  | NotCallable

definition default_expression :: expression where
  "default_expression = Function True (\<lambda>trx. Inr NoneV)"

fun avg_loop :: "(tuple \<Rightarrow> error + val) \<Rightarrow> tuple list \<Rightarrow> nat \<times> int \<Rightarrow> error + nat \<times> int" where
  "avg_loop f [] nv = Inr nv"
| "avg_loop f (tr # ts) nv =
     (case f tr of
        Inl e \<Rightarrow> Inl e
      | Inr (IntV i) \<Rightarrow> avg_loop f ts (fst nv + 1, snd nv + i)
      | Inr other \<Rightarrow> Inl TypeError)"

definition AVG :: "relation \<Rightarrow> expression \<Rightarrow> error + rat" where
  "AVG r expression =
     (case expression of
        Function none_const g \<Rightarrow>
          (let f = (if none_const \<and> length (r_heading r) = 1
                    then (\<lambda>trx. getitem trx (r_heading r ! 0))
                    else g);
               res = scan_all r
           in case avg_loop f (fst res) (0, 0) of
                Inl e \<Rightarrow> Inl e
              | Inr nv \<Rightarrow>
                  (case snd res of
                     Some e \<Rightarrow> Inl e
                   | None \<Rightarrow>
                       if fst nv = 0 then Inr (- 99999)
                       else Inr (of_int (snd nv) / of_nat (fst nv))))
      | Builtin g \<Rightarrow> Inl (AttributeError ''__code__'')
      | NotCallable \<Rightarrow> Inl (AttributeError ''__code__''))"

section \<open>The database (DeeDatabase.py)\<close>

text \<open>
  A transaction frame is the dict from relvar names to relations. \<open>disk\<close> is the file
  written by \<open>_dump\<close>, \<open>None\<close> when there is no file that \<open>pickle\<close> can load: the
  pickled object keeps frame 0 without the relvars whose body is a function. The script
  file that \<open>_dump\<close> also writes is not modelled.
\<close>

type_synonym frame = "(string \<times> relation) list"

record database =
  db_name :: string
  failedToLoad :: bool
  readonly :: "string list"
  transactions :: "nat \<rightharpoonup> frame"
  transactionId :: nat
  disk :: "frame option"

definition preDump :: "frame \<Rightarrow> frame" where
  "preDump d = filter (\<lambda>(k, v). \<not> is_callable v) d"

text \<open>
  \<open>pickle.loads(pickle.dumps(d))\<close> for a frame \<open>d\<close> without function bodies is a deep
  copy; the bound constraint functions it drops (\<open>__getstate__\<close>) are bound again by
  \<open>_postLoad\<close>. \<open>constraint_definitions\<close> is pickled, and it keeps the function of a
  constraint declared with a lambda: \<open>pickle.dumps\<close> then raises \<open>PicklingError\<close> (for a
  lambda of module level; Python 3.11 reports a lambda that was defined inside a function
  with \<open>AttributeError\<close>).
\<close>

definition has_lambda :: "relation \<Rightarrow> bool" where
  "has_lambda r =
     list_ex (\<lambda>(cname, d). case d of LambdaDef \<Rightarrow> True | _ \<Rightarrow> False) (constraint_definitions r)"

definition pickle_copy :: "frame \<Rightarrow> error + frame" where
  "pickle_copy d = (if list_ex (\<lambda>(k, v). has_lambda v) d then Inl PicklingError else Inr d)"

definition headingPK :: "relation \<Rightarrow> attr list option" where
  "headingPK r =
     (case filter (\<lambda>(cname, d). case d of KeyDef p \<Rightarrow> True | _ \<Rightarrow> False) (constraint_definitions r) of
        [] \<Rightarrow> None
      | (cname, d) # rest \<Rightarrow>
          (case d of
             KeyDef (Some hk) \<Rightarrow> Some (if hk = [] then r_heading r else hk)
           | _ \<Rightarrow> Some (r_heading r)))"

text \<open>
  \<open>_postLoad\<close> evaluates the text \<open>kn(r, p, frame)\<close> for every declared constraint: what
  can go wrong when a constraint is bound in a frame.
\<close>

definition bind_error :: "frame \<Rightarrow> cdef \<Rightarrow> error option" where
  "bind_error fr d =
     (case d of
        KeyDef p \<Rightarrow> None
      | ForeignKeyDef r2 fkmap \<Rightarrow>
          (case map_of fr r2 of
             None \<Rightarrow> Some (NameError r2)
           | Some referenced \<Rightarrow>
               if headingPK referenced = None then Some RelationException else None)
      | LambdaDef \<Rightarrow> Some SyntaxError)"

fun first_error :: "error option list \<Rightarrow> error option" where
  "first_error [] = None"
| "first_error (None # es) = first_error es"
| "first_error (Some e # es) = Some e"

definition postLoad :: "frame \<Rightarrow> error option" where
  "postLoad fr =
     first_error (concat (map (\<lambda>(rn, r). map (\<lambda>(cname, d). bind_error fr d) (constraint_definitions r)) fr))"

text \<open>The constraint functions that \<open>_postLoad\<close> binds for a relvar of a frame.\<close>

definition bound_constraints :: "frame \<Rightarrow> relation \<Rightarrow> constraints" where
  "bound_constraints fr r =
     map (\<lambda>(cname, d).
            (cname, (case d of
                       KeyDef p \<Rightarrow> constraintFromCandidateKey p
                     | ForeignKeyDef r2 fkmap \<Rightarrow> constraintFromForeignKey (map_of fr) r2 fkmap
                     | LambdaDef \<Rightarrow> (\<lambda>r. Inl SyntaxError))))
       (constraint_definitions r)"

text \<open>
  The catalog relvars. Their bodies are bound methods that read the current frame at
  every scan; the model records what they produce when \<open>_vinit\<close> has registered them.
\<close>

definition catalog_names :: "string list" where
  "catalog_names = [''relations'', ''attributes'', ''constraints'', ''constraint_attributes'']"

definition vrelations :: "frame \<Rightarrow> error + tuple list" where
  "vrelations fr = Inr (map (\<lambda>(k, v). [(''relation_name'', StrV k)]) fr)"

definition vattributes :: "frame \<Rightarrow> error + tuple list" where
  "vattributes fr =
     Inr (concat (map (\<lambda>(k, v). map (\<lambda>ka. [(''relation_name'', StrV k), (''attribute_name'', StrV ka)])
                                  (heading v)) fr))"

definition constraint_type :: "cdef \<Rightarrow> string" where
  "constraint_type d =
     (case d of
        KeyDef p \<Rightarrow> ''constraintFromCandidateKey''
      | ForeignKeyDef r2 fkmap \<Rightarrow> ''constraintFromForeignKey''
      | LambdaDef \<Rightarrow> ''constraintFromLambda'')"

definition vconstraints :: "frame \<Rightarrow> error + tuple list" where
  "vconstraints fr =
     Inr (concat (map (\<lambda>(k, v).
            if k \<in> set catalog_names then []
            else map (\<lambda>(rn, d). [(''relation_name'', StrV k),
                                  (''constraint_name'', StrV (k @ ''_'' @ rn)),
                                  (''constraint_type'', StrV (constraint_type d))])
                   (constraint_definitions v)) fr))"

fun constraint_attribute_rows :: "string \<Rightarrow> relation \<Rightarrow> (string \<times> cdef) list \<Rightarrow> error + tuple list" where
  "constraint_attribute_rows k v [] = Inr []"
| "constraint_attribute_rows k v ((rn, KeyDef p) # cds) =
     ebind (constraint_attribute_rows k v cds)
       (\<lambda>rest. Inr (map (\<lambda>a. [(''constraint_name'', StrV (k @ ''_'' @ rn)), (''attribute_name'', StrV a)])
                      (case p of None \<Rightarrow> heading v | Some hk \<Rightarrow> if hk = [] then heading v else hk)
                    @ rest))"
| "constraint_attribute_rows k v ((rn, other) # cds) = Inl TypeError"

fun vconstraint_attributes :: "frame \<Rightarrow> error + tuple list" where
  "vconstraint_attributes [] = Inr []"
| "vconstraint_attributes ((k, v) # fr) =
     ebind (constraint_attribute_rows k v (constraint_definitions v))
       (\<lambda>rows. ebind (vconstraint_attributes fr) (\<lambda>rest. Inr (rows @ rest)))"

definition catalog_relation :: "attr list \<Rightarrow> error + tuple list \<Rightarrow> relation" where
  "catalog_relation h f = setBody_callable (NoArg f) (blank h default_cdefs)"

definition register_catalog :: "frame \<Rightarrow> frame" where
  "register_catalog fr =
     (let names = dict_update fr (map (\<lambda>n. (n, blank [] [])) catalog_names);
          shape = dict_update fr
            [(''relations'', catalog_relation [''relation_name''] (Inr [])),
             (''attributes'', catalog_relation [''relation_name'', ''attribute_name''] (Inr [])),
             (''constraints'',
                catalog_relation [''relation_name'', ''constraint_name'', ''constraint_type''] (Inr [])),
             (''constraint_attributes'',
                catalog_relation [''constraint_name'', ''attribute_name''] (Inr []))]
      in dict_update fr
            [(''relations'', catalog_relation [''relation_name''] (vrelations names)),
             (''attributes'',
                catalog_relation [''relation_name'', ''attribute_name''] (vattributes shape)),
             (''constraints'',
                catalog_relation [''relation_name'', ''constraint_name'', ''constraint_type'']
                  (vconstraints shape)),
             (''constraint_attributes'',
                catalog_relation [''constraint_name'', ''attribute_name'']
                  (vconstraint_attributes shape))])"

definition current_frame :: "database \<Rightarrow> frame" where
  "current_frame db = (case transactions db (transactionId db) of None \<Rightarrow> [] | Some fr \<Rightarrow> fr)"

definition vinit :: "database \<Rightarrow> database \<times> error option" where
  "vinit db =
     (case postLoad (current_frame db) of
        Some e \<Rightarrow> (db, Some e)
      | None \<Rightarrow>
          (db\<lparr>readonly := catalog_names,
              transactions := (transactions db)(transactionId db \<mapsto> register_catalog (current_frame db))\<rparr>,
           None))"

text \<open>
  \<open>__getattribute__\<close> returns the relvar of the current frame for every name that the
  frame binds, \<open>transactionId\<close> and \<open>transactions\<close> apart. A relvar named like an
  attribute of the \<open>Database\<close> object therefore replaces that attribute wherever a method
  or \<open>pickle\<close> reads \<open>self.item\<close>: \<open>own_names\<close> lists the attributes and methods of the
  object (\<open>dir\<close> of it), and Python itself reads names that start with two underscores
  (\<open>__dict__\<close>, \<open>__class__\<close>, \<open>__reduce_ex__\<close>). Most methods then raise \<open>TypeError\<close>,
  a \<open>Relation\<close> being called without its argument; what each of them does is not
  modelled. \<open>begin\<close>, \<open>commit\<close>, \<open>rollback\<close> and the assignment of a relvar are modelled
  for the frames that bind no such name, and their models return \<open>None\<close> for the others.
\<close>

definition own_names :: "string list" where
  "own_names =
     [''_dump'', ''_filename'', ''_fnexit'', ''_postLoad'', ''_preDump'', ''_readonly'', ''_vinit'',
      ''begin'', ''clear'', ''commit'', ''copy'', ''debugStatus'', ''failedToLoad'', ''fromkeys'',
      ''get'', ''items'', ''keys'', ''load'', ''name'', ''open'', ''pop'', ''popitem'', ''rollback'',
      ''setdefault'', ''update'', ''values'', ''vattributes'', ''vconstraint_attributes'',
      ''vconstraints'', ''vrelations'']"

definition reserved :: "string \<Rightarrow> bool" where
  "reserved item = (item \<in> set own_names \<or> take 2 item = ''__'')"

definition shadowed :: "frame \<Rightarrow> bool" where
  "shadowed fr = list_ex (\<lambda>(k, v). reserved k) fr"


definition db_setattr :: "database \<Rightarrow> string \<Rightarrow> relation \<Rightarrow> (database \<times> error option) option" where
  "db_setattr db item v =
     (case transactions db (transactionId db) of
        None \<Rightarrow> Some (db, Some (AttributeError ''__dict__''))
      | Some fr \<Rightarrow>
          if shadowed fr then None
          else Some
            (if item \<in> set (readonly db) then (db, Some (AttributeError item))
             else
               (db\<lparr>transactions := (transactions db)(transactionId db \<mapsto> AList.update item v fr)\<rparr>,
                None)))"

text \<open>
  \<open>_dump\<close>: the file is opened for writing, which empties it, and the object is
  pickled into it. Pickling the object also replaces frame 0 by its copy without views
  (\<open>__getstate__\<close>), and it fails for a constraint declared with a lambda.
\<close>

definition dump :: "database \<Rightarrow> database \<times> error option" where
  "dump db =
     (if failedToLoad db then (db, Some PlainException)
      else
        (case transactions db 0 of
           None \<Rightarrow> (db\<lparr>disk := None\<rparr>, Some (KeyError ''0''))
         | Some fr \<Rightarrow>
             (case pickle_copy (preDump fr) of
                Inl e \<Rightarrow> (db\<lparr>transactions := (transactions db)(0 \<mapsto> preDump fr), disk := None\<rparr>, Some e)
              | Inr pickled \<Rightarrow>
                  (db\<lparr>transactions := (transactions db)(0 \<mapsto> preDump fr), disk := Some pickled\<rparr>,
                   None))))"

text \<open>
  Where the current frame is missing, \<open>__getattribute__\<close> turns the \<open>KeyError\<close> of the
  lookup into \<open>AttributeError\<close>, also for the name of the method that is being called.

  \<open>begin\<close>: the new frame is registered empty before the committed frame is copied, so
  an exception of \<open>pickle\<close> leaves the database inside a transaction with an empty frame.
\<close>

definition db_begin :: "database \<Rightarrow> (database \<times> error option) option" where
  "db_begin db =
     (case transactions db (transactionId db) of
        None \<Rightarrow> Some (db, Some (AttributeError ''begin''))
      | Some fr \<Rightarrow>
          if shadowed fr then None
          else Some
            (if transactionId db \<noteq> 0 then (db, Some AssertionError)
             else
               (let db1 = db\<lparr>transactionId := 1, transactions := (transactions db)(1 \<mapsto> [])\<rparr>
                in case pickle_copy (preDump fr) of
                     Inl e \<Rightarrow> (db1, Some e)
                   | Inr clone \<Rightarrow> vinit (db1\<lparr>transactions := (transactions db1)(1 \<mapsto> clone)\<rparr>))))"

text \<open>
  \<open>commit\<close>: the frame of the transaction is copied first, so an exception of \<open>pickle\<close>
  leaves the transaction open and the committed frame and the file as they were.
\<close>

definition db_commit :: "database \<Rightarrow> (database \<times> error option) option" where
  "db_commit db =
     (case transactions db (transactionId db) of
        None \<Rightarrow> Some (db, Some (AttributeError ''commit''))
      | Some fr \<Rightarrow>
          if shadowed fr then None
          else Some
            (if \<not> transactionId db > 0 then (db, Some AssertionError)
             else
               (case pickle_copy (preDump fr) of
                  Inl e \<Rightarrow> (db, Some e)
                | Inr clone \<Rightarrow>
                    (let tid = transactionId db - 1;
                         db1 = db\<lparr>transactionId := tid,
                                  transactions := ((transactions db)(Suc tid := None))(tid \<mapsto> clone)\<rparr>
                     in case dump db1 of
                          (db2, Some e) \<Rightarrow> (db2, Some e)
                        | (db2, None) \<Rightarrow> vinit db2))))"


section \<open>Well-formed relations\<close>

text \<open>
  What the constructor and the mutations maintain for a materialized body when every
  row they are handed fits the heading: the heading names each attribute once, the
  stored rows are tuples, no row is stored twice, every row has one hashable value for
  each attribute, all rows have the same types column by column, and the entry of the
  inverted index for the \<open>j\<close>-th attribute and a value \<open>v\<close> is the set of the
  positions of the rows whose \<open>j\<close>-th component is \<open>v\<close>. The predicates below speak
  about the values of the stored rows, \<open>map items\<close> of the body.
\<close>

definition index_ok :: "attr list \<Rightarrow> val list list \<Rightarrow> index \<Rightarrow> bool" where
  "index_ok h b ix =
     (\<forall>j < length h. \<exists>m. ix (h ! j) = Some m \<and> (\<forall>v. idx_get m v = {i. i < length b \<and> b ! i ! j = v}))"

definition same_types :: "val list list \<Rightarrow> bool" where
  "same_types b = (\<forall>x \<in> set b. \<forall>y \<in> set b. map type_of x = map type_of y)"

definition wf_mat :: "attr list \<Rightarrow> val list list \<Rightarrow> index \<Rightarrow> bool" where
  "wf_mat h b ix =
     (distinct h \<and> distinct b \<and> (\<forall>row \<in> set b. length row = length h) \<and> same_types b \<and> index_ok h b ix
      \<and> (\<forall>row \<in> set b. list_all hashable row))"

text \<open>
  A dict conforms to a heading when its keys are the attributes of the heading. A row
  fits a heading when it is a tuple with one hashable value for each attribute, or a
  dict that conforms to the heading and holds hashable values.
\<close>

definition conforms :: "attr list \<Rightarrow> tuple \<Rightarrow> bool" where
  "conforms h t = (distinct (map fst t) \<and> set (map fst t) = set h)"

definition hashable_dict :: "tuple \<Rightarrow> bool" where
  "hashable_dict d = list_all (\<lambda>(k, v). hashable v) d"

definition fits :: "attr list \<Rightarrow> rowin \<Rightarrow> bool" where
  "fits h row =
     (case row of
        TRow t \<Rightarrow> length t = length h \<and> list_all hashable t
      | LRow t \<Rightarrow> False
      | DRow d \<Rightarrow> conforms h d \<and> hashable_dict d)"

text \<open>The values of the row that is stored for a fitting input row.\<close>

definition row_of :: "attr list \<Rightarrow> rowin \<Rightarrow> val list" where
  "row_of h row =
     (case row of TRow t \<Rightarrow> t | LRow t \<Rightarrow> t | DRow d \<Rightarrow> map (\<lambda>a. the (map_of d a)) h)"

fun is_tuple :: "srow \<Rightarrow> bool" where
  "is_tuple (TupleRow t) = True"
| "is_tuple (ListRow t) = False"

text \<open>
  A well-formed relation: a materialized body as above; a view that returns dicts over
  its heading, with hashable values and the same types attribute by attribute; any
  one-argument function.
\<close>

definition wf_rel :: "relation \<Rightarrow> bool" where
  "wf_rel r =
     (distinct (r_heading r) \<and>
      (case r_body r of
         Materialized b \<Rightarrow> list_all is_tuple b \<and> wf_mat (r_heading r) (map items b) (headingInvert r)
       | NoArg f \<Rightarrow>
           (case f of
              Inl e \<Rightarrow> False
            | Inr ts \<Rightarrow> (\<forall>t \<in> set ts. conforms (r_heading r) t \<and> hashable_dict t)
                        \<and> same_types (map (\<lambda>t. row_of (r_heading r) (DRow t)) ts))
       | OneArg f \<Rightarrow> True))"

section \<open>The sample data (date\_Database\_script.py)\<close>

definition S_heading :: "attr list" where
  "S_heading = [''S#'', ''SNAME'', ''STATUS'', ''CITY'']"

definition S_rows :: "rowin list" where
  "S_rows =
    [DRow [(''S#'', StrV ''S1''), (''SNAME'', StrV ''Smith''), (''STATUS'', IntV 20), (''CITY'', StrV ''London'')],
     DRow [(''S#'', StrV ''S2''), (''SNAME'', StrV ''Jones''), (''STATUS'', IntV 10), (''CITY'', StrV ''Paris'')],
     DRow [(''S#'', StrV ''S3''), (''SNAME'', StrV ''Blake''), (''STATUS'', IntV 30), (''CITY'', StrV ''Paris'')],
     DRow [(''S#'', StrV ''S4''), (''SNAME'', StrV ''Clark''), (''STATUS'', IntV 20), (''CITY'', StrV ''London'')],
     DRow [(''S#'', StrV ''S5''), (''SNAME'', StrV ''Adams''), (''STATUS'', IntV 30), (''CITY'', StrV ''Athens'')]]"

definition S_cdefs :: "(string \<times> cdef) list" where
  "S_cdefs = [(''pk'', KeyDef (Some [''S#'']))]"

definition SP_heading :: "attr list" where
  "SP_heading = [''S#'', ''P#'', ''QTY'']"

definition SP_row :: "string \<Rightarrow> string \<Rightarrow> int \<Rightarrow> rowin" where
  "SP_row s p q = DRow [(''S#'', StrV s), (''P#'', StrV p), (''QTY'', IntV q)]"

definition SP_rows :: "rowin list" where
  "SP_rows =
    [SP_row ''S1'' ''P1'' 300, SP_row ''S1'' ''P2'' 200, SP_row ''S1'' ''P3'' 400,
     SP_row ''S1'' ''P4'' 200, SP_row ''S1'' ''P5'' 100, SP_row ''S1'' ''P6'' 100,
     SP_row ''S2'' ''P1'' 300, SP_row ''S2'' ''P2'' 400, SP_row ''S3'' ''P2'' 200,
     SP_row ''S4'' ''P2'' 200, SP_row ''S4'' ''P4'' 300, SP_row ''S4'' ''P5'' 400]"

definition SP_cdefs :: "(string \<times> cdef) list" where
  "SP_cdefs =
    [(''pk'', KeyDef (Some [''S#'', ''P#''])),
     (''fkS'', ForeignKeyDef ''S'' [(''S#'', ''S#'')]),
     (''fkP'', ForeignKeyDef ''P'' [(''P#'', ''P#'')])]"

definition P_heading :: "attr list" where
  "P_heading = [''P#'', ''PNAME'', ''COLOR'', ''WEIGHT'', ''CITY'']"

definition P_row :: "string \<Rightarrow> string \<Rightarrow> string \<Rightarrow> int \<Rightarrow> string \<Rightarrow> rowin" where
  "P_row p n c w t =
     DRow [(''P#'', StrV p), (''PNAME'', StrV n), (''COLOR'', StrV c), (''WEIGHT'', IntV w), (''CITY'', StrV t)]"

definition P_rows :: "rowin list" where
  "P_rows =
    [P_row ''P1'' ''Nut'' ''Red'' 12 ''London'', P_row ''P2'' ''Bolt'' ''Green'' 17 ''Paris'',
     P_row ''P3'' ''Screw'' ''Blue'' 17 ''Rome'', P_row ''P4'' ''Screw'' ''Red'' 14 ''London'',
     P_row ''P5'' ''Cam'' ''Blue'' 12 ''Paris'', P_row ''P6'' ''Cog'' ''Red'' 19 ''London'']"

definition P_cdefs :: "(string \<times> cdef) list" where
  "P_cdefs = [(''pk'', KeyDef (Some [''P#'']))]"

text \<open>
  The three relvars as the constructor leaves them when it runs inside the database
  namespace, where the binding of the constraints is deferred, and the frame holding them.
\<close>

definition stored_rows :: "relation \<Rightarrow> val list list" where
  "stored_rows r = (case r_body r of Materialized b \<Rightarrow> map items b | _ \<Rightarrow> [])"

definition date_S :: relation where
  "date_S = fst (setBody [] S_rows (blank S_heading S_cdefs))"

definition date_P :: relation where
  "date_P = fst (setBody [] P_rows (blank P_heading P_cdefs))"

definition date_SP :: relation where
  "date_SP = fst (setBody [] SP_rows (blank SP_heading SP_cdefs))"

definition date_frame :: frame where
  "date_frame = [(''S'', date_S), (''P'', date_P), (''SP'', date_SP)]"

text \<open>The tuple of supplier S1 and the relation that \<open>delete\<close> makes of it.\<close>

definition S1_tuple :: tuple where
  "S1_tuple = [(''S#'', StrV ''S1''), (''SNAME'', StrV ''Smith''), (''STATUS'', IntV 20), (''CITY'', StrV ''London'')]"

definition S1_relation :: relation where
  "S1_relation =
     fst (setBody default_constraints [TRow (map snd S1_tuple)] (blank (map fst S1_tuple) default_cdefs))"

text \<open>The restriction \<open>lambda t: t.QTY > 300\<close>.\<close>

definition qty_over_300 :: "tuple \<Rightarrow> error + bool" where
  "qty_over_300 t =
     ebind (getattr t ''QTY'') (\<lambda>v. case v of IntV q \<Rightarrow> Inr (q > 300) | _ \<Rightarrow> Inl TypeError)"

definition error_of :: "error + 'a \<Rightarrow> error option" where
  "error_of x = (case x of Inl e \<Rightarrow> Some e | Inr v \<Rightarrow> None)"

definition count_of :: "error + relation \<Rightarrow> error + nat" where
  "count_of x = ebind x COUNT"

definition rows_of_result :: "error + relation \<Rightarrow> error + val list list" where
  "rows_of_result x = ebind x (\<lambda>r. Inr (stored_rows r))"

section \<open>Small relations used as examples\<close>

text \<open>
  A relation over \<open>a, b\<close> with key \<open>a\<close> holding the row \<open>(1, x)\<close>, and a batch of two
  rows of which the first is already stored and the second repeats the key.
\<close>

definition key_a :: constraints where
  "key_a = [(''pk'', constraintFromCandidateKey (Some [''a'']))]"

definition keyed :: relation where
  "keyed =
     fst (setBody key_a [TRow [IntV 1, StrV ''x'']] (blank [''a'', ''b''] [(''pk'', KeyDef (Some [''a'']))]))"

definition keyed_batch :: relation where
  "keyed_batch =
     fst (setBody default_constraints [TRow [IntV 1, StrV ''x''], TRow [IntV 1, StrV ''y'']]
            (blank [''a'', ''b''] default_cdefs))"

text \<open>
  A relation over \<open>a\<close> whose constraint \<open>lambda r: COUNT(r) >= 2\<close> asks for two rows,
  holding 1 and 2, and a batch holding 2 and the absent 3.
\<close>

definition at_least_two :: constraints where
  "at_least_two = [(''two'', \<lambda>r. ebind (COUNT r) (\<lambda>n. Inr (n \<ge> 2)))]"

definition pair_rel :: relation where
  "pair_rel = fst (setBody at_least_two [TRow [IntV 1], TRow [IntV 2]] (blank [''a''] [(''two'', LambdaDef)]))"

definition pair_batch :: relation where
  "pair_batch = fst (setBody default_constraints [TRow [IntV 2], TRow [IntV 3]] (blank [''a''] default_cdefs))"

text \<open>The relation over \<open>a\<close> holding 1, 2 and 3, and a relation over \<open>b\<close>.\<close>

definition one_two_three :: relation where
  "one_two_three =
     fst (setBody default_constraints [TRow [IntV 1], TRow [IntV 2], TRow [IntV 3]] (blank [''a''] default_cdefs))"

definition over_b :: relation where
  "over_b = fst (setBody default_constraints [TRow [IntV 1]] (blank [''b''] default_cdefs))"

text \<open>
  The relation over the heading of \<open>SP\<close> without rows, \<open>Relation(['S#', 'P#', 'QTY'], [])\<close>,
  and the expression \<open>lambda t: t['QTY']\<close>.
\<close>

definition no_shipments :: relation where
  "no_shipments = fst (setBody default_constraints [] (blank SP_heading default_cdefs))"

definition quantity :: expression where
  "quantity = Function False (\<lambda>t. getitem t ''QTY'')"

text \<open>
  The relation that \<open>Relation(['a', 'b'], [(1, 2, 3)])\<close> returns, whose only row is
  longer than the heading, and \<open>_hashfind\<close> on the result of a constructor call.
\<close>

definition overlong :: "error + relation" where
  "overlong = Relation0 [''a'', ''b''] [TRow [IntV 1, IntV 2, IntV 3]]"

definition find_in :: "error + relation \<Rightarrow> rowin \<Rightarrow> error + nat set" where
  "find_in x row = ebind x (\<lambda>r. hashfind r row)"

text \<open>
  The relation over \<open>a, b\<close> without rows, a view over \<open>a, b\<close> that returns one dict
  holding a list, and the suppliers after \<open>S.delete\<close> of the tuple of S1 with the key of
  \<open>S\<close> as the constraint.
\<close>

definition empty_ab :: relation where
  "empty_ab = fst (setBody default_constraints [] (blank [''a'', ''b''] default_cdefs))"

definition list_view :: relation where
  "list_view =
     setBody_callable (NoArg (Inr [[(''a'', IntV 99), (''b'', ListV [IntV 1])]]))
       (blank [''a'', ''b''] default_cdefs)"

definition S_key :: constraints where
  "S_key = [(''pk'', constraintFromCandidateKey (Some [''S#'']))]"

definition S_without_S1 :: relation where
  "S_without_S1 = fst (delete_rel S_key date_S S1_relation)"

text \<open>\<open>TABLE_DEE\<close> and \<open>TABLE_DUM\<close> (Dee.py lines 1826-1827).\<close>

definition TABLE_DEE :: relation where
  "TABLE_DEE = fst (setBody default_constraints [DRow []] (blank [] default_cdefs))"

definition TABLE_DUM :: relation where
  "TABLE_DUM = fst (setBody default_constraints [] (blank [] default_cdefs))"

text \<open>
  The database holding the three relvars, as \<open>__init__\<close> and \<open>_vinit\<close> leave it, the
  same database after \<open>begin()\<close>, and a view over \<open>S#\<close>.
\<close>

definition date_db :: database where
  "date_db = \<lparr>db_name = ''date'', failedToLoad = False, readonly = catalog_names,
              transactions = [0 \<mapsto> register_catalog date_frame], transactionId = 0, disk = None\<rparr>"

definition in_transaction :: database where
  "in_transaction = fst (the (db_begin date_db))"


section \<open>Relations built from fitting rows\<close>

text \<open>
  The materialized relations that the code builds when every row it is handed fits the
  heading: \<open>setBody\<close> resets the body and the index of a relation whose heading names
  each attribute once (\<open>fresh\<close>), and \<open>_addToBody\<close> and \<open>_removeFromBody\<close> run on it
  with any constraints, with or without the check, on batches of rows that fit the
  heading, whether the batch is kept, reverted after a constraint failure or ended by an
  exception. The constructor is \<open>fresh\<close> followed by \<open>inserted\<close>. The relations that
  the code builds from other rows (a tuple longer than the heading, a list, a value
  that is not hashable) are outside this set.
\<close>

inductive fitted :: "relation \<Rightarrow> bool" where
  fresh: "distinct h \<Longrightarrow>
          fitted ((blank h cdefs)\<lparr>r_body := Materialized [], headingInvert := empty_index h\<rparr>)"
| inserted: "fitted r \<Longrightarrow> \<forall>row \<in> set rows. fits (r_heading r) row \<Longrightarrow>
          fitted (fst (addToBody cs rows nocheck r))"
| deleted: "fitted r \<Longrightarrow> \<forall>row \<in> set rows. fits (r_heading r) row \<Longrightarrow>
          fitted (fst (removeFromBody cs rows nocheck r))"


section \<open>The index under insertion and deletion\<close>

lemma idx_get_upd: "idx_get (m(v \<mapsto> s)) v' = (if v' = v then s else idx_get m v')"
  by (simp add: idx_get_def)

lemma idx_get_map_option: "idx_get (\<lambda>v. map_option f (m v)) v = (case m v of None \<Rightarrow> {} | Some s \<Rightarrow> f s)"
  by (simp add: idx_get_def split: option.splits)

lemma hashfind_seq_Some:
  "length as = length vs \<Longrightarrow> \<forall>a \<in> set as. ix a \<noteq> None \<Longrightarrow> \<forall>v \<in> set vs. hashable v \<Longrightarrow>
   hashfind_seq ix as vs (Some s) =
     Inr (Some (s \<inter> {i. \<forall>(a, v) \<in> set (zip as vs). i \<in> idx_get (the (ix a)) v}))"
proof (induction as vs arbitrary: s rule: list_induct2)
  case Nil
  then show ?case by simp
next
  case (Cons a as v vs)
  then obtain m where m: "ix a = Some m" by auto
  have hv: "hashable v" using Cons.prems by simp
  show ?case
  proof (cases "s \<inter> idx_get m v = {}")
    case True
    then show ?thesis using m hv by (auto simp: narrow_def)
  next
    case False
    have "hashfind_seq ix (a # as) (v # vs) (Some s) = hashfind_seq ix as vs (Some (s \<inter> idx_get m v))"
      using m hv False by (simp add: narrow_def)
    also have "\<dots> = Inr (Some ((s \<inter> idx_get m v) \<inter> {i. \<forall>(a, v) \<in> set (zip as vs). i \<in> idx_get (the (ix a)) v}))"
      using Cons by simp
    finally show ?thesis using m by (auto simp: Int_def)
  qed
qed

lemma hashfind_seq_None:
  "length as = length vs \<Longrightarrow> \<forall>a \<in> set as. ix a \<noteq> None \<Longrightarrow> \<forall>v \<in> set vs. hashable v \<Longrightarrow>
   as \<noteq> [] \<Longrightarrow>
   hashfind_seq ix as vs None =
     Inr (Some {i. \<forall>(a, v) \<in> set (zip as vs). i \<in> idx_get (the (ix a)) v})"
proof (cases as)
  case Nil
  then show "as \<noteq> [] \<Longrightarrow> ?thesis" by simp
next
  case (Cons a as')
  assume len: "length as = length vs" and dom: "\<forall>a \<in> set as. ix a \<noteq> None"
    and hs: "\<forall>v \<in> set vs. hashable v"
  then obtain v vs' where vs: "vs = v # vs'" using Cons by (cases vs) auto
  obtain m where m: "ix a = Some m" using dom Cons by auto
  have hv: "hashable v" using hs vs by simp
  show ?thesis
  proof (cases "idx_get m v = {}")
    case True
    then show ?thesis using m hv Cons vs by (auto simp: narrow_def)
  next
    case False
    have "hashfind_seq ix as vs None = hashfind_seq ix as' vs' (Some (idx_get m v))"
      using m hv False Cons vs by (simp add: narrow_def)
    also have "\<dots> = Inr (Some (idx_get m v \<inter> {i. \<forall>(a, v) \<in> set (zip as' vs'). i \<in> idx_get (the (ix a)) v}))"
      using len dom hs Cons vs by (intro hashfind_seq_Some) auto
    finally show ?thesis using m Cons vs by (auto simp: Int_def)
  qed
qed

lemma hashfind_dict_Some:
  "\<forall>a \<in> fst ` set kvs. ix a \<noteq> None \<Longrightarrow> \<forall>v \<in> snd ` set kvs. hashable v \<Longrightarrow>
   hashfind_dict ix kvs (Some s) =
     Inr (Some (s \<inter> {i. \<forall>(a, v) \<in> set kvs. i \<in> idx_get (the (ix a)) v}))"
proof (induction kvs arbitrary: s)
  case Nil
  then show ?case by simp
next
  case (Cons kv kvs)
  obtain a v where kv: "kv = (a, v)" by (cases kv)
  then obtain m where m: "ix a = Some m" using Cons.prems by auto
  have hv: "hashable v" using Cons.prems kv by simp
  show ?case
  proof (cases "s \<inter> idx_get m v = {}")
    case True
    then show ?thesis using m hv kv by (auto simp: narrow_def)
  next
    case False
    have "hashfind_dict ix (kv # kvs) (Some s) = hashfind_dict ix kvs (Some (s \<inter> idx_get m v))"
      using m hv False kv by (simp add: narrow_def)
    also have "\<dots> = Inr (Some ((s \<inter> idx_get m v) \<inter> {i. \<forall>(a, v) \<in> set kvs. i \<in> idx_get (the (ix a)) v}))"
      using Cons by simp
    finally show ?thesis using m kv by (auto simp: Int_def)
  qed
qed

lemma hashfind_dict_None:
  "\<forall>a \<in> fst ` set kvs. ix a \<noteq> None \<Longrightarrow> \<forall>v \<in> snd ` set kvs. hashable v \<Longrightarrow> kvs \<noteq> [] \<Longrightarrow>
   hashfind_dict ix kvs None =
     Inr (Some {i. \<forall>(a, v) \<in> set kvs. i \<in> idx_get (the (ix a)) v})"
proof (cases kvs)
  case Nil
  then show "kvs \<noteq> [] \<Longrightarrow> ?thesis" by simp
next
  case (Cons kv kvs')
  assume dom: "\<forall>a \<in> fst ` set kvs. ix a \<noteq> None" and hs: "\<forall>v \<in> snd ` set kvs. hashable v"
  obtain a v where kv: "kv = (a, v)" by (cases kv)
  obtain m where m: "ix a = Some m" using dom Cons kv by auto
  have hv: "hashable v" using hs Cons kv by simp
  show ?thesis
  proof (cases "idx_get m v = {}")
    case True
    then show ?thesis using m hv Cons kv by (auto simp: narrow_def)
  next
    case False
    have "hashfind_dict ix kvs None = hashfind_dict ix kvs' (Some (idx_get m v))"
      using m hv False Cons kv by (simp add: narrow_def)
    also have "\<dots> = Inr (Some (idx_get m v \<inter> {i. \<forall>(a, v) \<in> set kvs'. i \<in> idx_get (the (ix a)) v}))"
      using dom hs Cons by (intro hashfind_dict_Some) auto
    finally show ?thesis using m Cons kv by (auto simp: Int_def)
  qed
qed


lemma index_ok_entry:
  "index_ok h b ix \<Longrightarrow> j < length h \<Longrightarrow>
   ix (h ! j) \<noteq> None \<and> idx_get (the (ix (h ! j))) v = {i. i < length b \<and> b ! i ! j = v}"
  unfolding index_ok_def by fastforce

lemma index_ok_dom: "index_ok h b ix \<Longrightarrow> \<forall>a \<in> set h. ix a \<noteq> None"
  by (metis in_set_conv_nth index_ok_entry)

lemma rows_equal_iff:
  "length x = n \<Longrightarrow> length y = n \<Longrightarrow> (x = y) = (\<forall>j < n. x ! j = y ! j)"
  by (auto intro: nth_equalityI)

lemma conforms_lookup:
  "conforms h d \<Longrightarrow> ((a, v) \<in> set d) = (a \<in> set h \<and> map_of d a = Some v)"
  unfolding conforms_def by (metis fst_conv image_eqI list.set_map map_of_eq_Some_iff)

lemma hashfind_found:
  assumes wf: "wf_mat (r_heading r) b (headingInvert r)" and body: "r_body r = Materialized (map TupleRow b)"
    and fits: "fits (r_heading r) row"
  shows "hashfind r row = Inr {i. i < length b \<and> b ! i = row_of (r_heading r) row}"
proof -
  let ?h = "r_heading r" and ?ix = "headingInvert r"
  have dh: "distinct ?h" and db: "distinct b" and len: "\<forall>x \<in> set b. length x = length ?h"
    and iok: "index_ok ?h b ?ix"
    using wf by (auto simp: wf_mat_def)
  have hd: "heading r = ?h" using dh by (simp add: heading_def)
  show ?thesis
  proof (cases "?h = []")
    case True
    have rl: "rowlen row = 0" "row_of ?h row = []"
      using fits True by (auto simp: fits_def conforms_def row_of_def split: rowin.splits)
    have all_nil: "\<forall>x \<in> set b. x = []" using len True by simp
    have short: "length b \<le> 1"
    proof (rule ccontr)
      assume "\<not> length b \<le> 1"
      then have l: "0 < length b" "1 < length b" by auto
      then have "b ! 0 = b ! 1" using all_nil by (metis nth_mem)
      moreover have "(b ! 0 = b ! 1) = ((0::nat) = 1)"
        using db l by (rule nth_eq_iff_index_eq)
      ultimately show False by simp
    qed
    have "{i. i < length b \<and> b ! i = []} = (if length b = 1 then {0} else {})"
      using short all_nil by (cases b) auto
    then show ?thesis using True rl hd body by (simp add: hashfind_def)
  next
    case False
    have dom: "\<forall>a \<in> set ?h. ?ix a \<noteq> None" using iok by (rule index_ok_dom)
    have key: "\<And>t. length t = length ?h \<Longrightarrow>
        {i. \<forall>j < length ?h. i \<in> idx_get (the (?ix (?h ! j))) (t ! j)} = {i. i < length b \<and> b ! i = t}"
    proof -
      fix t :: "val list" assume lt: "length t = length ?h"
      have "\<And>i. (\<forall>j < length ?h. i \<in> idx_get (the (?ix (?h ! j))) (t ! j))
                = (i < length b \<and> b ! i = t)"
      proof -
        fix i
        have a: "(\<forall>j < length ?h. i \<in> idx_get (the (?ix (?h ! j))) (t ! j))
                 = (\<forall>j < length ?h. i < length b \<and> b ! i ! j = t ! j)"
          using index_ok_entry[OF iok] by auto
        have "0 < length ?h" using False by simp
        then have b: "(\<forall>j < length ?h. i < length b \<and> b ! i ! j = t ! j)
                 = (i < length b \<and> (\<forall>j < length ?h. b ! i ! j = t ! j))"
          by auto
        have c: "i < length b \<Longrightarrow> (\<forall>j < length ?h. b ! i ! j = t ! j) = (b ! i = t)"
          using len lt by (subst rows_equal_iff[of _ "length ?h"]) auto
        show "(\<forall>j < length ?h. i \<in> idx_get (the (?ix (?h ! j))) (t ! j)) = (i < length b \<and> b ! i = t)"
          using a b c by auto
      qed
      then show "{i. \<forall>j < length ?h. i \<in> idx_get (the (?ix (?h ! j))) (t ! j)} = {i. i < length b \<and> b ! i = t}"
        by simp
    qed
    show ?thesis
    proof (cases row)
      case (TRow t)
      then have lt: "length t = length ?h" and ht: "\<forall>v \<in> set t. hashable v"
        using fits by (simp_all add: fits_def list_all_iff)
      have "hashfind_seq ?ix ?h t None = Inr (Some {i. \<forall>(a, v) \<in> set (zip ?h t). i \<in> idx_get (the (?ix a)) v})"
        using lt dom ht False by (intro hashfind_seq_None) auto
      moreover have "{i. \<forall>(a, v) \<in> set (zip ?h t). i \<in> idx_get (the (?ix a)) v}
            = {i. \<forall>j < length ?h. i \<in> idx_get (the (?ix (?h ! j))) (t ! j)}"
        using lt by (auto simp: set_zip)
      ultimately show ?thesis
        using TRow False hd key[OF lt] by (simp add: hashfind_def ebind_def row_of_def)
    next
      case (DRow d)
      then have cf: "conforms ?h d" and hsd: "\<forall>v \<in> snd ` set d. hashable v"
        using fits by (auto simp: fits_def hashable_dict_def list_all_iff)
      let ?t = "map (\<lambda>a. the (map_of d a)) ?h"
      have ne: "d \<noteq> []" using cf False by (auto simp: conforms_def)
      have keys: "\<forall>a \<in> fst ` set d. ?ix a \<noteq> None" using cf dom by (auto simp: conforms_def)
      have "hashfind_dict ?ix d None = Inr (Some {i. \<forall>(a, v) \<in> set d. i \<in> idx_get (the (?ix a)) v})"
        using keys hsd ne by (rule hashfind_dict_None)
      moreover have "{i. \<forall>(a, v) \<in> set d. i \<in> idx_get (the (?ix a)) v}
            = {i. \<forall>j < length ?h. i \<in> idx_get (the (?ix (?h ! j))) (?t ! j)}"
      proof -
        have "\<And>i. (\<forall>(a, v) \<in> set d. i \<in> idx_get (the (?ix a)) v)
              = (\<forall>j < length ?h. i \<in> idx_get (the (?ix (?h ! j))) (?t ! j))"
        proof
          fix i
          assume l: "\<forall>(a, v) \<in> set d. i \<in> idx_get (the (?ix a)) v"
          show "\<forall>j < length ?h. i \<in> idx_get (the (?ix (?h ! j))) (?t ! j)"
          proof (intro allI impI)
            fix j assume j: "j < length ?h"
            then have "?h ! j \<in> fst ` set d" using cf by (auto simp: conforms_def)
            then obtain v where "map_of d (?h ! j) = Some v"
              by (metis domD dom_map_of_conv_image_fst)
            then have "(?h ! j, ?t ! j) \<in> set d" using j by (simp add: map_of_SomeD)
            then show "i \<in> idx_get (the (?ix (?h ! j))) (?t ! j)" using l by auto
          qed
        next
          fix i
          assume r: "\<forall>j < length ?h. i \<in> idx_get (the (?ix (?h ! j))) (?t ! j)"
          show "\<forall>(a, v) \<in> set d. i \<in> idx_get (the (?ix a)) v"
          proof (clarify)
            fix a v assume av: "(a, v) \<in> set d"
            then have "a \<in> set ?h" "map_of d a = Some v" using conforms_lookup[OF cf] by auto
            then obtain j where "j < length ?h" "?h ! j = a" by (auto simp: in_set_conv_nth)
            then show "i \<in> idx_get (the (?ix a)) v" using r \<open>map_of d a = Some v\<close> by force
          qed
        qed
        then show ?thesis by simp
      qed
      ultimately show ?thesis
        using DRow False hd ne key[of ?t] by (simp add: hashfind_def ebind_def row_of_def)
    next
      case (LRow t)
      then show ?thesis using fits by (simp add: fits_def)
    qed
  qed
qed

lemma update_inverted_closed:
  "length as = length vs \<Longrightarrow> distinct as \<Longrightarrow> \<forall>a \<in> set as. ix a \<noteq> None \<Longrightarrow>
   update_inverted as vs ri ix =
     ((\<lambda>a. case map_of (zip as vs) a of
             None \<Rightarrow> ix a
           | Some v \<Rightarrow> Some ((the (ix a))(v \<mapsto> insert ri (idx_get (the (ix a)) v)))), None)"
proof (induction as vs arbitrary: ix rule: list_induct2)
  case Nil
  then show ?case by simp
next
  case (Cons a as v vs)
  then obtain m where m: "ix a = Some m" by auto
  let ?ix' = "ix(a \<mapsto> m(v \<mapsto> (case m v of None \<Rightarrow> {ri} | Some s \<Rightarrow> insert ri s)))"
  have x: "(case m v of None \<Rightarrow> {ri} | Some s \<Rightarrow> insert ri s) = insert ri (idx_get m v)"
    by (simp add: idx_get_def split: option.splits)
  have an: "map_of (zip as vs) a = None" using Cons by (auto simp: map_of_zip_is_None)
  have "update_inverted (a # as) (v # vs) ri ix = update_inverted as vs ri ?ix'"
    using m by simp
  also have "\<dots> = ((\<lambda>a'. case map_of (zip as vs) a' of
             None \<Rightarrow> ?ix' a'
           | Some v' \<Rightarrow> Some ((the (?ix' a'))(v' \<mapsto> insert ri (idx_get (the (?ix' a')) v')))), None)"
    using Cons by (intro Cons.IH) auto
  also have "\<dots> = ((\<lambda>a'. case map_of (zip (a # as) (v # vs)) a' of
             None \<Rightarrow> ix a'
           | Some v' \<Rightarrow> Some ((the (ix a'))(v' \<mapsto> insert ri (idx_get (the (ix a')) v')))), None)"
    using m an x by (auto simp: fun_eq_iff split: option.splits)
  finally show ?case .
qed

lemma shift_inverted_closed:
  "distinct as \<Longrightarrow> \<forall>a \<in> set as. ix a \<noteq> None \<Longrightarrow>
   shift_inverted as ri ix =
     ((\<lambda>a. if a \<in> set as then Some (\<lambda>v. map_option (shift_set ri) (the (ix a) v)) else ix a), None)"
proof (induction as arbitrary: ix)
  case Nil
  then show ?case by simp
next
  case (Cons a as)
  then obtain m where m: "ix a = Some m" by auto
  let ?ix' = "ix(a \<mapsto> (\<lambda>v. map_option (shift_set ri) (m v)))"
  have "shift_inverted (a # as) ri ix = shift_inverted as ri ?ix'" using m by simp
  also have "\<dots> = ((\<lambda>a'. if a' \<in> set as then Some (\<lambda>v. map_option (shift_set ri) (the (?ix' a') v)) else ?ix' a'), None)"
    using Cons by (intro Cons.IH) auto
  also have "\<dots> = ((\<lambda>a'. if a' \<in> set (a # as) then Some (\<lambda>v. map_option (shift_set ri) (the (ix a') v)) else ix a'), None)"
    using m Cons.prems by (auto simp: fun_eq_iff)
  finally show ?case .
qed

lemma shift_set_sem:
  assumes "finite s"
  shows "shift_set ri s = {i. (i < ri \<and> i \<in> s) \<or> (ri \<le> i \<and> Suc i \<in> s)}"
proof -
  have img: "(\<lambda>cri. cri - 1) ` {cri \<in> s. cri > ri} = {i. ri \<le> i \<and> Suc i \<in> s}"
  proof (rule set_eqI)
    fix i
    show "(i \<in> (\<lambda>cri. cri - 1) ` {cri \<in> s. cri > ri}) = (i \<in> {i. ri \<le> i \<and> Suc i \<in> s})"
    proof
      assume "i \<in> (\<lambda>cri. cri - 1) ` {cri \<in> s. cri > ri}"
      then obtain c where "c \<in> s" "c > ri" "i = c - 1" by auto
      then show "i \<in> {i. ri \<le> i \<and> Suc i \<in> s}" by auto
    next
      assume "i \<in> {i. ri \<le> i \<and> Suc i \<in> s}"
      then have "Suc i \<in> s" "Suc i > ri" "i = Suc i - 1" by auto
      then show "i \<in> (\<lambda>cri. cri - 1) ` {cri \<in> s. cri > ri}" by blast
    qed
  qed
  show ?thesis
  proof (cases "s \<noteq> {} \<and> Max s \<ge> ri")
    case True
    then show ?thesis using img by (auto simp: shift_set_def)
  next
    case False
    then have lt: "\<forall>i \<in> s. i < ri" using assms by (metis Max_ge le_less_trans not_le_imp_less empty_iff)
    from False have a: "shift_set ri s = s" by (auto simp: shift_set_def)
    show ?thesis unfolding a using lt by auto
  qed
qed

lemma nth_without:
  "ri < length b \<Longrightarrow> i < length b - 1 \<Longrightarrow>
   (take ri b @ drop (Suc ri) b) ! i = (if i < ri then b ! i else b ! Suc i)"
  by (auto simp: nth_append min_def)

lemma append_positions:
  "{i. i < length (b @ [t]) \<and> (b @ [t]) ! i ! j = v}
   = {i. i < length b \<and> b ! i ! j = v} \<union> (if t ! j = v then {length b} else {})"
proof (rule set_eqI)
  fix i
  show "(i \<in> {i. i < length (b @ [t]) \<and> (b @ [t]) ! i ! j = v})
      = (i \<in> {i. i < length b \<and> b ! i ! j = v} \<union> (if t ! j = v then {length b} else {}))"
  proof (cases "i < length b")
    case True
    then show ?thesis by (simp add: nth_append)
  next
    case False
    then show ?thesis by (cases "i = length b") (simp_all add: nth_append)
  qed
qed

lemma remove_positions:
  assumes ri: "ri < length b"
  shows "{i. (i < ri \<and> i \<in> {i. i < length b \<and> b ! i ! j = v}) \<or> (ri \<le> i \<and> Suc i \<in> {i. i < length b \<and> b ! i ! j = v})}
   = {i. i < length (take ri b @ drop (Suc ri) b) \<and> (take ri b @ drop (Suc ri) b) ! i ! j = v}"
proof (rule set_eqI)
  fix i
  have lb': "length (take ri b @ drop (Suc ri) b) = length b - 1" using ri by simp
  show "(i \<in> {i. (i < ri \<and> i \<in> {i. i < length b \<and> b ! i ! j = v}) \<or> (ri \<le> i \<and> Suc i \<in> {i. i < length b \<and> b ! i ! j = v})})
      = (i \<in> {i. i < length (take ri b @ drop (Suc ri) b) \<and> (take ri b @ drop (Suc ri) b) ! i ! j = v})"
  proof (cases "i < length b - 1")
    case True
    then have "Suc i < length b" by simp
    then show ?thesis using True ri nth_without[OF ri True] unfolding mem_Collect_eq lb'
      by (cases "i < ri") simp_all
  next
    case False
    then show ?thesis using ri unfolding mem_Collect_eq lb' by auto
  qed
qed

lemma typecheck_same_length:
  "length first = length t \<Longrightarrow> (typecheck first t = None) = (map type_of t = map type_of first)"
  by (induction first t rule: list_induct2) auto

lemma dictToTuple_total:
  "\<forall>a \<in> set h. map_of d a \<noteq> None \<Longrightarrow> dictToTuple h d = Inr (map (\<lambda>a. the (map_of d a)) h)"
  by (induction h) auto

lemma conforms_dom: "conforms h d \<Longrightarrow> \<forall>a \<in> set h. map_of d a \<noteq> None"
  unfolding conforms_def by (metis domIff dom_map_of_conv_image_fst list.set_map)

lemma as_stored_fits: "fits h row \<Longrightarrow> as_stored h row = Inr (TupleRow (row_of h row))"
  by (auto simp: fits_def as_stored_def row_of_def dictToTuple_total conforms_dom split: rowin.splits)

lemma length_row_of: "fits h row \<Longrightarrow> length (row_of h row) = length h"
  by (auto simp: fits_def row_of_def split: rowin.splits)

lemma typecheck_row_sem:
  assumes "fits h row" and "\<forall>x \<in> set b. length x = length h"
  shows "(typecheck_row h (map TupleRow b) row = None) = (b = [] \<or> map type_of (row_of h row) = map type_of (hd b))"
proof (cases b)
  case Nil
  then show ?thesis by (simp add: typecheck_row_def)
next
  case (Cons first rest)
  then have lf: "length first = length h" using assms by simp
  show ?thesis
  proof (cases row)
    case (TRow t)
    then show ?thesis using Cons lf assms(1)
      by (simp add: typecheck_row_def fits_def row_of_def typecheck_same_length)
  next
    case (LRow t)
    then show ?thesis using assms(1) by (simp add: fits_def)
  next
    case (DRow d)
    then have cf: "conforms h d" using assms(1) by (simp add: fits_def)
    show ?thesis
    proof (cases "first = []")
      case True
      then show ?thesis using Cons DRow lf by (simp add: typecheck_row_def row_of_def)
    next
      case False
      then show ?thesis using Cons DRow lf cf
        by (simp add: typecheck_row_def row_of_def dictToTuple_total conforms_dom typecheck_same_length)
    qed
  qed
qed

lemma index_ok_append:
  assumes iok: "index_ok h b ix" and dh: "distinct h" and lt: "length t = length h"
  shows "\<exists>ix'. update_inverted h t (length b) ix = (ix', None) \<and> index_ok h (b @ [t]) ix'"
proof -
  have dom: "\<forall>a \<in> set h. ix a \<noteq> None" using iok by (rule index_ok_dom)
  let ?ix' = "\<lambda>a. case map_of (zip h t) a of
             None \<Rightarrow> ix a
           | Some v \<Rightarrow> Some ((the (ix a))(v \<mapsto> insert (length b) (idx_get (the (ix a)) v)))"
  have upd: "update_inverted h t (length b) ix = (?ix', None)"
    using lt dh dom by (intro update_inverted_closed) auto
  have "index_ok h (b @ [t]) ?ix'"
    unfolding index_ok_def
  proof (intro allI impI)
    fix j assume j: "j < length h"
    have z: "map_of (zip h t) (h ! j) = Some (t ! j)"
      using j lt dh by (simp add: map_of_zip_nth)
    have old: "\<And>v. idx_get (the (ix (h ! j))) v = {i. i < length b \<and> b ! i ! j = v}"
      using index_ok_entry[OF iok j] by simp
    let ?m = "(the (ix (h ! j)))(t ! j \<mapsto> insert (length b) (idx_get (the (ix (h ! j))) (t ! j)))"
    have "\<forall>v. idx_get ?m v = {i. i < length (b @ [t]) \<and> (b @ [t]) ! i ! j = v}"
      unfolding append_positions idx_get_upd old by auto
    then show "\<exists>m. ?ix' (h ! j) = Some m \<and> (\<forall>v. idx_get m v = {i. i < length (b @ [t]) \<and> (b @ [t]) ! i ! j = v})"
      using z by simp
  qed
  then show ?thesis using upd by blast
qed


lemma index_ok_remove:
  assumes iok: "index_ok h b ix" and dh: "distinct h" and ri: "ri < length b"
  shows "\<exists>ix'. shift_inverted h ri ix = (ix', None) \<and> index_ok h (take ri b @ drop (Suc ri) b) ix'"
proof -
  let ?b' = "take ri b @ drop (Suc ri) b"
  have dom: "\<forall>a \<in> set h. ix a \<noteq> None" using iok by (rule index_ok_dom)
  let ?ix' = "\<lambda>a. if a \<in> set h then Some (\<lambda>v. map_option (shift_set ri) (the (ix a) v)) else ix a"
  have sh: "shift_inverted h ri ix = (?ix', None)"
    using dh dom by (rule shift_inverted_closed)
  have lb': "length ?b' = length b - 1" using ri by simp
  have "index_ok h ?b' ?ix'"
    unfolding index_ok_def
  proof (intro allI impI)
    fix j assume j: "j < length h"
    have old: "\<And>v. idx_get (the (ix (h ! j))) v = {i. i < length b \<and> b ! i ! j = v}"
      using index_ok_entry[OF iok j] by simp
    have "\<forall>v. idx_get (\<lambda>v. map_option (shift_set ri) (the (ix (h ! j)) v)) v
               = {i. i < length ?b' \<and> ?b' ! i ! j = v}"
    proof
      fix v
      let ?s = "idx_get (the (ix (h ! j))) v"
      have fin: "finite ?s" unfolding old by simp
      have e: "shift_set ri {} = {}" by (simp add: shift_set_def)
      have "idx_get (\<lambda>v. map_option (shift_set ri) (the (ix (h ! j)) v)) v = shift_set ri ?s"
        using e by (simp add: idx_get_def split: option.splits)
      also have "\<dots> = {i. (i < ri \<and> i \<in> ?s) \<or> (ri \<le> i \<and> Suc i \<in> ?s)}"
        using fin by (rule shift_set_sem)
      also have "\<dots> = {i. i < length ?b' \<and> ?b' ! i ! j = v}"
        unfolding old by (rule remove_positions[OF ri])
      finally show "idx_get (\<lambda>v. map_option (shift_set ri) (the (ix (h ! j)) v)) v
               = {i. i < length ?b' \<and> ?b' ! i ! j = v}" .
    qed
    then show "\<exists>m. ?ix' (h ! j) = Some m \<and> (\<forall>v. idx_get m v = {i. i < length ?b' \<and> ?b' ! i ! j = v})"
      using j by simp
  qed
  then show ?thesis using sh by blast
qed

lemma same_types_append:
  assumes "same_types b" and "b = [] \<or> map type_of t = map type_of (hd b)"
  shows "same_types (b @ [t])"
proof (cases b)
  case Nil
  then show ?thesis by (simp add: same_types_def)
next
  case (Cons x xs)
  then have "x \<in> set b" by simp
  then have a: "\<And>y. y \<in> set b \<Longrightarrow> map type_of y = map type_of x"
    using assms(1) unfolding same_types_def by blast
  have b: "map type_of t = map type_of x" using assms(2) Cons by simp
  have c: "\<And>y. y \<in> set (b @ [t]) \<Longrightarrow> map type_of y = map type_of x"
  proof -
    fix y assume "y \<in> set (b @ [t])"
    then have "y \<in> set b \<or> y = t" by auto
    then show "map type_of y = map type_of x" using a b by blast
  qed
  show ?thesis unfolding same_types_def
  proof (intro ballI)
    fix p q assume "p \<in> set (b @ [t])" "q \<in> set (b @ [t])"
    then show "map type_of p = map type_of q" using c[of p] c[of q] by simp
  qed
qed

lemma remove1_nth:
  "distinct xs \<Longrightarrow> i < length xs \<Longrightarrow> remove1 (xs ! i) xs = take i xs @ drop (Suc i) xs"
proof (induction xs arbitrary: i)
  case Nil
  then show ?case by simp
next
  case (Cons x xs)
  show ?case
  proof (cases i)
    case 0
    then show ?thesis by simp
  next
    case (Suc k)
    then have k: "k < length xs" using Cons.prems by simp
    have "x \<notin> set xs" using Cons.prems by simp
    moreover have "xs ! k \<in> set xs" using k by simp
    ultimately have "xs ! k \<noteq> x" by blast
    moreover have "remove1 (xs ! k) xs = take k xs @ drop (Suc k) xs"
      using Cons.IH[of k] Cons.prems k by simp
    ultimately show ?thesis using Suc by simp
  qed
qed

lemma same_types_subset: "same_types b \<Longrightarrow> set b' \<subseteq> set b \<Longrightarrow> same_types b'"
  unfolding same_types_def by blast

lemma hashable_row_of: "fits h row \<Longrightarrow> list_all hashable (row_of h row)"
proof (cases row)
  case (DRow d)
  assume f: "fits h row"
  then have cf: "conforms h d" and hs: "\<forall>(k, v) \<in> set d. hashable v"
    using DRow by (auto simp: fits_def hashable_dict_def list_all_iff)
  have "\<And>a. a \<in> set h \<Longrightarrow> hashable (the (map_of d a))"
  proof -
    fix a assume "a \<in> set h"
    then obtain v where v: "map_of d a = Some v" using conforms_dom[OF cf] by auto
    then have "(a, v) \<in> set d" by (rule map_of_SomeD)
    then show "hashable (the (map_of d a))" using hs v by auto
  qed
  then show ?thesis using DRow by (simp add: row_of_def list_all_iff)
next
  case (TRow t)
  assume "fits h row"
  then show ?thesis using TRow by (simp add: fits_def row_of_def)
next
  case (LRow t)
  assume "fits h row"
  then show ?thesis using LRow by (simp add: fits_def)
qed

lemma hashable_tuple_rows:
  "\<forall>row \<in> set b. list_all hashable row \<Longrightarrow> list_all hashable_row (map TupleRow b)"
  by (simp add: list_all_iff)

text \<open>One step of the insert loop on a well-formed materialized relation.\<close>

lemma add_row_sem:
  assumes wf: "wf_mat (r_heading r) b (headingInvert r)" and body: "r_body r = Materialized (map TupleRow b)"
    and fits: "fits (r_heading r) row"
  shows "\<exists>b' ix' e. add_row r row = (r\<lparr>r_body := Materialized (map TupleRow b'), headingInvert := ix'\<rparr>, e)
          \<and> wf_mat (r_heading r) b' ix'
          \<and> (e = None) = (b = [] \<or> map type_of (row_of (r_heading r) row) = map type_of (hd b))
          \<and> b' = (if e = None \<and> row_of (r_heading r) row \<notin> set b then b @ [row_of (r_heading r) row] else b)"
proof -
  let ?h = "r_heading r" and ?ix = "headingInvert r" and ?t = "row_of (r_heading r) row"
  have dh: "distinct ?h" and db: "distinct b" and len: "\<forall>x \<in> set b. length x = length ?h"
    and st: "same_types b" and iok: "index_ok ?h b ?ix" and hb: "\<forall>x \<in> set b. list_all hashable x"
    using wf by (auto simp: wf_mat_def)
  have same: "r\<lparr>r_body := Materialized (map TupleRow b), headingInvert := ?ix\<rparr> = r" using body by simp
  have found: "hashfind r row = Inr {i. i < length b \<and> b ! i = ?t}"
    using wf body fits by (rule hashfind_found)
  have mem: "({i. i < length b \<and> b ! i = ?t} \<noteq> {}) = (?t \<in> set b)"
    by (auto simp: in_set_conv_nth)
  have ht: "list_all hashable ?t" using fits by (rule hashable_row_of)
  show ?thesis
  proof (cases "typecheck_row ?h (map TupleRow b) row")
    case (Some e)
    then have "\<not> (b = [] \<or> map type_of ?t = map type_of (hd b))"
      using typecheck_row_sem[OF fits len] by simp
    moreover have "add_row r row = (r, Some e)" using Some body by (simp add: add_row_def)
    then have "add_row r row = (r\<lparr>r_body := Materialized (map TupleRow b), headingInvert := ?ix\<rparr>, Some e)"
      by (simp only: same)
    ultimately show ?thesis using wf by (intro exI[of _ b] exI[of _ ?ix] exI[of _ "Some e"]) simp
  next
    case None
    then have ty: "b = [] \<or> map type_of ?t = map type_of (hd b)"
      using typecheck_row_sem[OF fits len] by simp
    show ?thesis
    proof (cases "?t \<in> set b")
      case True
      then have "add_row r row = (r, None)" using None body found mem by (simp add: add_row_def)
      then have "add_row r row = (r\<lparr>r_body := Materialized (map TupleRow b), headingInvert := ?ix\<rparr>, None)"
        by (simp only: same)
      then show ?thesis using wf ty True by (intro exI[of _ b] exI[of _ ?ix] exI[of _ None]) simp
    next
      case False
      obtain ix' where u: "update_inverted ?h ?t (length b) ?ix = (ix', None)"
        and iok': "index_ok ?h (b @ [?t]) ix'"
        using index_ok_append[OF iok dh length_row_of[OF fits]] by blast
      have "add_row r row = (r\<lparr>r_body := Materialized (map TupleRow (b @ [?t])), headingInvert := ix'\<rparr>, None)"
        using None body found mem False u ht as_stored_fits[OF fits] by (simp add: add_row_def)
      moreover have "wf_mat ?h (b @ [?t]) ix'"
        unfolding wf_mat_def
      proof (intro conjI)
        show "distinct ?h" by (rule dh)
        show "distinct (b @ [?t])" using db False by simp
        show "\<forall>row \<in> set (b @ [?t]). length row = length ?h"
          using len length_row_of[OF fits] by simp
        show "same_types (b @ [?t])" using st ty by (rule same_types_append)
        show "index_ok ?h (b @ [?t]) ix'" by (rule iok')
        show "\<forall>row \<in> set (b @ [?t]). list_all hashable row" using hb ht by simp
      qed
      ultimately show ?thesis using ty False
        by (intro exI[of _ "b @ [?t]"] exI[of _ ix'] exI[of _ None]) simp
    qed
  qed
qed

text \<open>One step of the delete loop on a well-formed materialized relation.\<close>

lemma remove_row_sem:
  assumes wf: "wf_mat (r_heading r) b (headingInvert r)" and body: "r_body r = Materialized (map TupleRow b)"
    and fits: "fits (r_heading r) row"
  shows "\<exists>b' ix' e. remove_row r row = (r\<lparr>r_body := Materialized (map TupleRow b'), headingInvert := ix'\<rparr>, e)
          \<and> wf_mat (r_heading r) b' ix'
          \<and> (e = None) = (b = [] \<or> map type_of (row_of (r_heading r) row) = map type_of (hd b))
          \<and> b' = (if e = None then remove1 (row_of (r_heading r) row) b else b)"
proof -
  let ?h = "r_heading r" and ?ix = "headingInvert r" and ?t = "row_of (r_heading r) row"
  have dh: "distinct ?h" and db: "distinct b" and len: "\<forall>x \<in> set b. length x = length ?h"
    and st: "same_types b" and iok: "index_ok ?h b ?ix" and hb: "\<forall>x \<in> set b. list_all hashable x"
    using wf by (auto simp: wf_mat_def)
  have same: "r\<lparr>r_body := Materialized (map TupleRow b), headingInvert := ?ix\<rparr> = r" using body by simp
  have found: "hashfind r row = Inr {i. i < length b \<and> b ! i = ?t}"
    using wf body fits by (rule hashfind_found)
  have mem: "({i. i < length b \<and> b ! i = ?t} = {}) = (?t \<notin> set b)"
    by (auto simp: in_set_conv_nth)
  have hrows: "list_all hashable_row (map TupleRow b)" using hb by (rule hashable_tuple_rows)
  show ?thesis
  proof (cases "typecheck_row ?h (map TupleRow b) row")
    case (Some e)
    then have "\<not> (b = [] \<or> map type_of ?t = map type_of (hd b))"
      using typecheck_row_sem[OF fits len] by simp
    moreover have "remove_row r row = (r, Some e)" using Some body by (simp add: remove_row_def)
    then have "remove_row r row = (r\<lparr>r_body := Materialized (map TupleRow b), headingInvert := ?ix\<rparr>, Some e)"
      by (simp only: same)
    ultimately show ?thesis using wf by (intro exI[of _ b] exI[of _ ?ix] exI[of _ "Some e"]) simp
  next
    case None
    then have ty: "b = [] \<or> map type_of ?t = map type_of (hd b)"
      using typecheck_row_sem[OF fits len] by simp
    show ?thesis
    proof (cases "?t \<in> set b")
      case False
      then have "remove_row r row = (r, None)" using None body found mem hrows by (simp add: remove_row_def)
      then have "remove_row r row = (r\<lparr>r_body := Materialized (map TupleRow b), headingInvert := ?ix\<rparr>, None)"
        by (simp only: same)
      moreover have "remove1 ?t b = b" using False by (simp add: remove1_idem)
      ultimately show ?thesis using wf ty by (intro exI[of _ b] exI[of _ ?ix] exI[of _ None]) simp
    next
      case True
      then obtain ri where ri: "ri < length b" "b ! ri = ?t" by (auto simp: in_set_conv_nth)
      have uniq: "\<And>x. x < length b \<Longrightarrow> b ! x = ?t \<Longrightarrow> x = ri"
      proof -
        fix x assume x: "x < length b" "b ! x = ?t"
        then have "b ! x = b ! ri" using ri(2) by simp
        then show "x = ri" using nth_eq_iff_index_eq[OF db x(1) ri(1)] by simp
      qed
      have single: "{i. i < length b \<and> b ! i = ?t} = {ri}"
      proof (rule equalityI; rule subsetI)
        fix i assume "i \<in> {i. i < length b \<and> b ! i = ?t}"
        then show "i \<in> {ri}" using uniq[of i] by simp
      next
        fix i assume "i \<in> {ri}"
        then show "i \<in> {i. i < length b \<and> b ! i = ?t}" using ri by simp
      qed
      have rem: "remove1 ?t b = take ri b @ drop (Suc ri) b"
        using remove1_nth[OF db ri(1)] ri(2) by simp
      obtain ix' where u: "shift_inverted ?h ri ?ix = (ix', None)"
        and iok': "index_ok ?h (take ri b @ drop (Suc ri) b) ix'"
        using index_ok_remove[OF iok dh ri(1)] by blast
      have "remove_row r row = (r\<lparr>r_body := Materialized (map TupleRow (take ri b @ drop (Suc ri) b)), headingInvert := ix'\<rparr>, None)"
        using None body found single ri u hrows by (simp add: remove_row_def take_map drop_map)
      moreover have "wf_mat ?h (remove1 ?t b) ix'"
        unfolding wf_mat_def
      proof (intro conjI)
        show "distinct ?h" by (rule dh)
        show "distinct (remove1 ?t b)" using db by simp
        show "\<forall>row \<in> set (remove1 ?t b). length row = length ?h"
        proof
          fix row assume "row \<in> set (remove1 ?t b)"
          then have "row \<in> set b" by (rule set_remove1_subset[THEN subsetD])
          then show "length row = length ?h" using len by simp
        qed
        show "same_types (remove1 ?t b)" using st set_remove1_subset by (rule same_types_subset)
        show "index_ok ?h (remove1 ?t b) ix'" using iok' rem by simp
        show "\<forall>row \<in> set (remove1 ?t b). list_all hashable row"
        proof
          fix row assume "row \<in> set (remove1 ?t b)"
          then have "row \<in> set b" by (rule set_remove1_subset[THEN subsetD])
          then show "list_all hashable row" using hb by simp
        qed
      qed
      ultimately show ?thesis using ty rem
        by (intro exI[of _ "remove1 ?t b"] exI[of _ ix'] exI[of _ None]) simp
    qed
  qed
qed

lemma same_types_Cons_hd:
  assumes "same_types (b @ t # ts)"
  shows "b = [] \<or> map type_of t = map type_of (hd b)"
proof (cases b)
  case Nil
  then show ?thesis by simp
next
  case (Cons x xs)
  have "t \<in> set (b @ t # ts)" by simp
  moreover have "x \<in> set (b @ t # ts)" using Cons by simp
  ultimately have "map type_of t = map type_of x"
    using assms unfolding same_types_def by blast
  then show ?thesis using Cons by simp
qed

lemma add_rows_sem:
  assumes "wf_mat (r_heading r) b (headingInvert r)" and "r_body r = Materialized (map TupleRow b)"
    and "\<forall>row \<in> set rows. fits (r_heading r) row"
  shows "\<exists>b' ix' e. add_rows r rows = (r\<lparr>r_body := Materialized (map TupleRow b'), headingInvert := ix'\<rparr>, e)
          \<and> wf_mat (r_heading r) b' ix'
          \<and> (same_types (b @ map (row_of (r_heading r)) rows) \<longrightarrow>
               e = None \<and> set b' = set b \<union> row_of (r_heading r) ` set rows)"
  using assms
proof (induction rows arbitrary: r b)
  case Nil
  have "r\<lparr>r_body := Materialized (map TupleRow b), headingInvert := headingInvert r\<rparr> = r" using Nil by simp
  then have "add_rows r [] = (r\<lparr>r_body := Materialized (map TupleRow b), headingInvert := headingInvert r\<rparr>, None)"
    by simp
  then show ?case using Nil by (intro exI[of _ b] exI[of _ "headingInvert r"] exI[of _ None]) simp
next
  case (Cons row rows)
  let ?h = "r_heading r" and ?t = "row_of (r_heading r) row"
  have f: "fits ?h row" using Cons.prems by simp
  obtain b1 ix1 e1 where s: "add_row r row = (r\<lparr>r_body := Materialized (map TupleRow b1), headingInvert := ix1\<rparr>, e1)"
    and wf1: "wf_mat ?h b1 ix1"
    and e1: "(e1 = None) = (b = [] \<or> map type_of ?t = map type_of (hd b))"
    and b1: "b1 = (if e1 = None \<and> ?t \<notin> set b then b @ [?t] else b)"
    using add_row_sem[OF Cons.prems(1) Cons.prems(2) f] by blast
  let ?r1 = "r\<lparr>r_body := Materialized (map TupleRow b1), headingInvert := ix1\<rparr>"
  show ?case
  proof (cases e1)
    case (Some e)
    then have "add_rows r (row # rows) = (?r1, Some e)" using s by simp
    moreover have "\<not> same_types (b @ map (row_of ?h) (row # rows))"
      using e1 Some same_types_Cons_hd[of b ?t "map (row_of ?h) rows"] by auto
    ultimately show ?thesis using wf1
      by (intro exI[of _ b1] exI[of _ ix1] exI[of _ "Some e"]) simp
  next
    case None
    have step: "add_rows r (row # rows) = add_rows ?r1 rows" using s None by simp
    have "\<exists>b' ix' e. add_rows ?r1 rows = (?r1\<lparr>r_body := Materialized (map TupleRow b'), headingInvert := ix'\<rparr>, e)
          \<and> wf_mat (r_heading ?r1) b' ix'
          \<and> (same_types (b1 @ map (row_of (r_heading ?r1)) rows) \<longrightarrow>
               e = None \<and> set b' = set b1 \<union> row_of (r_heading ?r1) ` set rows)"
      using wf1 Cons.prems(3) by (intro Cons.IH) simp_all
    then obtain b' ix' e where r: "add_rows ?r1 rows = (r\<lparr>r_body := Materialized (map TupleRow b'), headingInvert := ix'\<rparr>, e)"
      and wf': "wf_mat ?h b' ix'"
      and sem: "same_types (b1 @ map (row_of ?h) rows) \<longrightarrow> e = None \<and> set b' = set b1 \<union> row_of ?h ` set rows"
      by auto
    have sb1: "set b1 = set b \<union> {?t}" using b1 None by auto
    have "same_types (b @ map (row_of ?h) (row # rows)) \<longrightarrow> e = None \<and> set b' = set b \<union> row_of ?h ` set (row # rows)"
    proof
      assume st: "same_types (b @ map (row_of ?h) (row # rows))"
      have "set (b1 @ map (row_of ?h) rows) \<subseteq> set (b @ map (row_of ?h) (row # rows))"
        using sb1 by auto
      then have "same_types (b1 @ map (row_of ?h) rows)" using st same_types_subset by blast
      then show "e = None \<and> set b' = set b \<union> row_of ?h ` set (row # rows)"
        using sem sb1 by auto
    qed
    then show ?thesis using step r wf'
      by (intro exI[of _ b'] exI[of _ ix'] exI[of _ e]) simp
  qed
qed

lemma remove_rows_wf:
  assumes "wf_mat (r_heading r) b (headingInvert r)" and "r_body r = Materialized (map TupleRow b)"
    and "\<forall>row \<in> set rows. fits (r_heading r) row"
  shows "\<exists>b' ix' e. remove_rows r rows = (r\<lparr>r_body := Materialized (map TupleRow b'), headingInvert := ix'\<rparr>, e)
          \<and> wf_mat (r_heading r) b' ix'"
  using assms
proof (induction rows arbitrary: r b)
  case Nil
  have "r\<lparr>r_body := Materialized (map TupleRow b), headingInvert := headingInvert r\<rparr> = r" using Nil by simp
  then have "remove_rows r [] = (r\<lparr>r_body := Materialized (map TupleRow b), headingInvert := headingInvert r\<rparr>, None)"
    by simp
  then show ?case using Nil by (intro exI[of _ b] exI[of _ "headingInvert r"] exI[of _ None]) simp
next
  case (Cons row rows)
  let ?h = "r_heading r"
  have f: "fits ?h row" using Cons.prems by simp
  obtain b1 ix1 e1 where s: "remove_row r row = (r\<lparr>r_body := Materialized (map TupleRow b1), headingInvert := ix1\<rparr>, e1)"
    and wf1: "wf_mat ?h b1 ix1"
    using remove_row_sem[OF Cons.prems(1) Cons.prems(2) f] by blast
  let ?r1 = "r\<lparr>r_body := Materialized (map TupleRow b1), headingInvert := ix1\<rparr>"
  show ?case
  proof (cases e1)
    case (Some e)
    then have "remove_rows r (row # rows) = (?r1, Some e)" using s by simp
    then show ?thesis using wf1
      by (intro exI[of _ b1] exI[of _ ix1] exI[of _ "Some e"]) simp
  next
    case None
    have step: "remove_rows r (row # rows) = remove_rows ?r1 rows" using s None by simp
    have "\<exists>b' ix' e. remove_rows ?r1 rows = (?r1\<lparr>r_body := Materialized (map TupleRow b'), headingInvert := ix'\<rparr>, e)
          \<and> wf_mat (r_heading ?r1) b' ix'"
      using wf1 Cons.prems(3) by (intro Cons.IH) simp_all
    then obtain b' ix' e where r: "remove_rows ?r1 rows = (r\<lparr>r_body := Materialized (map TupleRow b'), headingInvert := ix'\<rparr>, e)"
      and wf': "wf_mat ?h b' ix'"
      by auto
    show ?thesis using step r wf'
      by (intro exI[of _ b'] exI[of _ ix'] exI[of _ e]) simp
  qed
qed

text \<open>The state of a relation after a mutation: the same object with a new body and index.\<close>

lemma add_rows_shape:
  assumes "wf_mat (r_heading r) b (headingInvert r)" and "r_body r = Materialized (map TupleRow b)"
    and "\<forall>row \<in> set rows. fits (r_heading r) row"
  shows "\<exists>b' ix'. fst (add_rows r rows) = r\<lparr>r_body := Materialized (map TupleRow b'), headingInvert := ix'\<rparr>
          \<and> wf_mat (r_heading r) b' ix'"
  using add_rows_sem[OF assms] by (metis fst_conv)

lemma remove_rows_shape:
  assumes "wf_mat (r_heading r) b (headingInvert r)" and "r_body r = Materialized (map TupleRow b)"
    and "\<forall>row \<in> set rows. fits (r_heading r) row"
  shows "\<exists>b' ix'. fst (remove_rows r rows) = r\<lparr>r_body := Materialized (map TupleRow b'), headingInvert := ix'\<rparr>
          \<and> wf_mat (r_heading r) b' ix'"
  using remove_rows_wf[OF assms] by (metis fst_conv)

lemma addToBody_shape:
  assumes "wf_mat (r_heading r) b (headingInvert r)" and "r_body r = Materialized (map TupleRow b)"
    and "\<forall>row \<in> set rows. fits (r_heading r) row"
  shows "\<exists>b' ix'. fst (addToBody cs rows nocheck r) = r\<lparr>r_body := Materialized (map TupleRow b'), headingInvert := ix'\<rparr>
          \<and> wf_mat (r_heading r) b' ix'"
proof -
  obtain b1 ix1 where a: "fst (add_rows r rows) = r\<lparr>r_body := Materialized (map TupleRow b1), headingInvert := ix1\<rparr>"
    and wf1: "wf_mat (r_heading r) b1 ix1"
    using add_rows_shape[OF assms] by blast
  let ?r1 = "r\<lparr>r_body := Materialized (map TupleRow b1), headingInvert := ix1\<rparr>"
  have "\<exists>b' ix'. fst (remove_rows ?r1 rows) = ?r1\<lparr>r_body := Materialized (map TupleRow b'), headingInvert := ix'\<rparr>
          \<and> wf_mat (r_heading ?r1) b' ix'"
    using wf1 assms(3) by (intro remove_rows_shape) simp_all
  then obtain b2 ix2 where r: "fst (remove_rows ?r1 rows) = r\<lparr>r_body := Materialized (map TupleRow b2), headingInvert := ix2\<rparr>"
    and wf2: "wf_mat (r_heading r) b2 ix2"
    by auto
  have "fst (addToBody cs rows nocheck r) = ?r1 \<or> fst (addToBody cs rows nocheck r) = fst (remove_rows ?r1 rows)"
    using a by (cases "add_rows r rows"; cases "remove_rows ?r1 rows")
      (auto simp: addToBody_def split: option.splits)
  then show ?thesis using wf1 wf2 r by auto
qed

lemma removeFromBody_shape:
  assumes "wf_mat (r_heading r) b (headingInvert r)" and "r_body r = Materialized (map TupleRow b)"
    and "\<forall>row \<in> set rows. fits (r_heading r) row"
  shows "\<exists>b' ix'. fst (removeFromBody cs rows nocheck r) = r\<lparr>r_body := Materialized (map TupleRow b'), headingInvert := ix'\<rparr>
          \<and> wf_mat (r_heading r) b' ix'"
proof -
  obtain b1 ix1 where a: "fst (remove_rows r rows) = r\<lparr>r_body := Materialized (map TupleRow b1), headingInvert := ix1\<rparr>"
    and wf1: "wf_mat (r_heading r) b1 ix1"
    using remove_rows_shape[OF assms] by blast
  let ?r1 = "r\<lparr>r_body := Materialized (map TupleRow b1), headingInvert := ix1\<rparr>"
  have "\<exists>b' ix'. fst (add_rows ?r1 rows) = ?r1\<lparr>r_body := Materialized (map TupleRow b'), headingInvert := ix'\<rparr>
          \<and> wf_mat (r_heading ?r1) b' ix'"
    using wf1 assms(3) by (intro add_rows_shape) simp_all
  then obtain b2 ix2 where r: "fst (add_rows ?r1 rows) = r\<lparr>r_body := Materialized (map TupleRow b2), headingInvert := ix2\<rparr>"
    and wf2: "wf_mat (r_heading r) b2 ix2"
    by auto
  have "fst (removeFromBody cs rows nocheck r) = ?r1 \<or> fst (removeFromBody cs rows nocheck r) = fst (add_rows ?r1 rows)"
    using a by (cases "remove_rows r rows"; cases "add_rows ?r1 rows")
      (auto simp: removeFromBody_def split: option.splits)
  then show ?thesis using wf1 wf2 r by auto
qed

lemma empty_index_lookup: "a \<in> set h \<Longrightarrow> empty_index h a = Some Map.empty"
proof -
  assume "a \<in> set h"
  then have "a \<in> fst ` set (map (\<lambda>a. (a, Map.empty :: val \<rightharpoonup> nat set)) (rev h))" by force
  then obtain m where m: "map_of (map (\<lambda>a. (a, Map.empty :: val \<rightharpoonup> nat set)) (rev h)) a = Some m"
    by (metis domD dom_map_of_conv_image_fst)
  then have "(a, m) \<in> set (map (\<lambda>a. (a, Map.empty :: val \<rightharpoonup> nat set)) (rev h))" by (rule map_of_SomeD)
  then have "m = Map.empty" by auto
  then show ?thesis using m by (simp add: empty_index_def)
qed

lemma wf_mat_empty: "distinct h \<Longrightarrow> wf_mat h [] (empty_index h)"
  by (simp add: wf_mat_def same_types_def index_ok_def empty_index_lookup idx_get_def)

lemma fitted_wf:
  "fitted r \<Longrightarrow> \<exists>b. r_body r = Materialized (map TupleRow b) \<and> wf_mat (r_heading r) b (headingInvert r)"
proof (induction rule: fitted.induct)
  case (fresh h cdefs)
  then show ?case by (simp add: blank_def wf_mat_empty)
next
  case (inserted r rows cs nocheck)
  then obtain b where b: "r_body r = Materialized (map TupleRow b)" "wf_mat (r_heading r) b (headingInvert r)" by blast
  obtain b' ix' where "fst (addToBody cs rows nocheck r) = r\<lparr>r_body := Materialized (map TupleRow b'), headingInvert := ix'\<rparr>"
    "wf_mat (r_heading r) b' ix'"
    using addToBody_shape[OF b(2) b(1) inserted.hyps(2)] by blast
  then show ?case by (intro exI[of _ b']) simp
next
  case (deleted r rows cs nocheck)
  then obtain b where b: "r_body r = Materialized (map TupleRow b)" "wf_mat (r_heading r) b (headingInvert r)" by blast
  obtain b' ix' where "fst (removeFromBody cs rows nocheck r) = r\<lparr>r_body := Materialized (map TupleRow b'), headingInvert := ix'\<rparr>"
    "wf_mat (r_heading r) b' ix'"
    using removeFromBody_shape[OF b(2) b(1) deleted.hyps(2)] by blast
  then show ?case by (intro exI[of _ b']) simp
qed


lemma setBody_fitted:
  assumes "distinct h" and "\<forall>row \<in> set rows. fits h row"
  shows "fitted (fst (setBody cs rows (blank h cdefs)))"
proof -
  have e: "r_heading (blank h cdefs) = h" by (simp add: blank_def)
  have f: "\<forall>row \<in> set rows.
      fits (r_heading ((blank h cdefs)\<lparr>r_body := Materialized [], headingInvert := empty_index h\<rparr>)) row"
    using assms(2) by (simp add: blank_def)
  show ?thesis unfolding setBody_def e
    by (rule fitted.inserted[OF fitted.fresh[OF assms(1)] f])
qed


section \<open>The sample data as relations\<close>

lemma Relation_rows_returns:
  "validateHeading h = None \<Longrightarrow> snd (setBody cs rows (blank h cdefs)) = None
   \<Longrightarrow> Relation_rows cs cdefs h rows = Inr (fst (setBody cs rows (blank h cdefs)))"
  by (cases "setBody cs rows (blank h cdefs)") (simp add: Relation_rows_def)

lemma date_S_constructed: "Relation_rows [] S_cdefs S_heading S_rows = Inr date_S"
proof -
  have "validateHeading S_heading = None" by code_simp
  moreover have "snd (setBody [] S_rows (blank S_heading S_cdefs)) = None" by code_simp
  ultimately show ?thesis
    unfolding date_S_def by (rule Relation_rows_returns)
qed

lemma date_P_constructed: "Relation_rows [] P_cdefs P_heading P_rows = Inr date_P"
proof -
  have "validateHeading P_heading = None" by code_simp
  moreover have "snd (setBody [] P_rows (blank P_heading P_cdefs)) = None" by code_simp
  ultimately show ?thesis
    unfolding date_P_def by (rule Relation_rows_returns)
qed

lemma date_SP_constructed: "Relation_rows [] SP_cdefs SP_heading SP_rows = Inr date_SP"
proof -
  have "validateHeading SP_heading = None" by code_simp
  moreover have "snd (setBody [] SP_rows (blank SP_heading SP_cdefs)) = None" by code_simp
  ultimately show ?thesis
    unfolding date_SP_def by (rule Relation_rows_returns)
qed

lemma date_frame_binds: "postLoad date_frame = None"
  by code_simp

lemma date_SP_rows: "length (stored_rows date_SP) = 12"
  by code_simp

lemma S1_relation_constructed: "fromTuple S1_tuple = Inr S1_relation"
proof -
  have "validateHeading (map fst S1_tuple) = None" by code_simp
  moreover have "snd (setBody default_constraints [TRow (map snd S1_tuple)]
                        (blank (map fst S1_tuple) default_cdefs)) = None" by code_simp
  ultimately show ?thesis
    unfolding fromTuple_def Relation0_def S1_relation_def by (rule Relation_rows_returns)
qed

section \<open>Reverting a batch whose constraint check fails\<close>

text \<open>
  C1. A failed insert removes every row of the batch, also the rows that were stored
  before the call; a failed delete adds every row of the batch, also the rows that were
  absent before the call. In the first example the relation with key \<open>a\<close> holds
  \<open>(1, x)\<close>; inserting \<open>(1, x), (1, y)\<close> raises the constraint exception of \<open>pk\<close> and
  leaves the relation empty. In the second the relation must keep two rows and holds 1
  and 2; deleting 2 and 3 raises the constraint exception and leaves 1, 2 and 3.
\<close>

theorem failed_batch_not_restored:
  "snd (insert_rel key_a keyed keyed_batch) = Some (RelationConstraintException ''pk'')
   \<and> stored_rows keyed = [[IntV 1, StrV ''x'']]
   \<and> stored_rows (fst (insert_rel key_a keyed keyed_batch)) = []
   \<and> snd (delete_rel at_least_two pair_rel pair_batch) = Some (RelationConstraintException ''two'')
   \<and> stored_rows pair_rel = [[IntV 1], [IntV 2]]
   \<and> stored_rows (fst (delete_rel at_least_two pair_rel pair_batch)) = [[IntV 1], [IntV 2], [IntV 3]]"
  by code_simp

section \<open>Deleting a referenced supplier\<close>

text \<open>
  C2, as the claim states it, fails: deleting the row of S1 from \<open>S\<close>, with the
  constraints that the frame binds for \<open>S\<close>, raises no exception.
\<close>

theorem delete_S1_raises_nothing:
  "snd (delete_rel (bound_constraints date_frame date_S) date_S S1_relation) = None"
  by code_simp

text \<open>
  C2, amended. \<open>delete\<close> checks the constraints of \<open>S\<close> alone, so the delete goes
  through: no exception, \<open>S\<close> holds the rows of S2 to S5, \<open>SP\<close> is not touched, and
  in the frame with the new \<open>S\<close> the foreign key \<open>fkS\<close> of \<open>SP\<close>, which held before,
  is the first constraint of \<open>SP\<close> that fails.
\<close>

theorem delete_S1_checks_only_S:
  "snd (delete_rel (bound_constraints date_frame date_S) date_S S1_relation) = None
   \<and> stored_rows (fst (delete_rel (bound_constraints date_frame date_S) date_S S1_relation)) =
       [[StrV ''S2'', StrV ''Jones'', IntV 10, StrV ''Paris''],
        [StrV ''S3'', StrV ''Blake'', IntV 30, StrV ''Paris''],
        [StrV ''S4'', StrV ''Clark'', IntV 20, StrV ''London''],
        [StrV ''S5'', StrV ''Adams'', IntV 30, StrV ''Athens'']]
   \<and> checkConstraints (bound_constraints date_frame date_SP) date_SP = None
   \<and> checkConstraints
         (bound_constraints
            (AList.update ''S''
               (fst (delete_rel (bound_constraints date_frame date_S) date_S S1_relation)) date_frame)
            date_SP)
         date_SP = Some (RelationConstraintException ''fkS'')"
  by code_simp

section \<open>Counting the shipments over 300\<close>

text \<open>
  C5, as the claim states it, fails: over the twelve rows of \<open>SP\<close> the count of the
  restriction \<open>QTY > 300\<close> is not 2.
\<close>

theorem count_over_300_is_not_2:
  "count_of (RESTRICT date_SP qty_over_300) \<noteq> Inr 2"
  by code_simp

text \<open>
  C5, amended. The count is 3: the rows with quantity 400 are S1/P3, S2/P2 and S4/P5.
\<close>

theorem count_over_300_is_3:
  "count_of (RESTRICT date_SP qty_over_300) = Inr 3
   \<and> rows_of_result (RESTRICT date_SP qty_over_300) =
       Inr [[StrV ''S1'', StrV ''P3'', IntV 400],
            [StrV ''S2'', StrV ''P2'', IntV 400],
            [StrV ''S4'', StrV ''P5'', IntV 400]]"
  by code_simp

section \<open>\<open>QUOTA\<close>\<close>

text \<open>
  C6. Over the relation holding 1, 2 and 3, \<open>QUOTA\<close> with limit 1 on \<open>a\<close> returns all
  three rows, ascending and descending: the count of peers ranked ahead is 0 for every
  row, because the restriction that counts them is false for every pair of rows.
\<close>

theorem QUOTA_keeps_every_row:
  "rows_of_result (QUOTA one_two_three 1 (Some [''a'']) True) = Inr [[IntV 1], [IntV 2], [IntV 3]]
   \<and> rows_of_result (QUOTA one_two_three 1 (Some [''a'']) False) = Inr [[IntV 1], [IntV 2], [IntV 3]]"
  by code_simp

section \<open>\<open>AVG\<close> of an empty scan\<close>

text \<open>
  C9, as the claim states it, fails for an expression argument that has no \<open>__code__\<close>:
  the scan of \<open>TABLE_DUM\<close> yields no tuple and raises nothing, and \<open>AVG\<close> with a
  callable such as \<open>operator.itemgetter('QTY')\<close>, or with \<open>None\<close>, raises
  \<open>AttributeError\<close> before it scans.
\<close>

theorem AVG_without_code_raises:
  "scan_all TABLE_DUM = ([], None)
   \<and> AVG TABLE_DUM (Builtin (\<lambda>t. getitem t ''QTY'')) = Inl (AttributeError ''__code__'')
   \<and> AVG TABLE_DUM NotCallable = Inl (AttributeError ''__code__'')"
proof -
  have "scan_all TABLE_DUM = ([], None)" by code_simp
  then show ?thesis by (simp add: AVG_def)
qed

text \<open>
  C9, amended. If the scan of \<open>r\<close> yields no tuple and raises nothing and the expression
  argument is a Python function (the default included), \<open>AVG\<close> returns the sentinel
  \<open>-99999\<close>: it raises nothing and divides nothing.
\<close>

theorem AVG_function_empty_sentinel:
  "scan_all r = ([], None) \<Longrightarrow> AVG r (Function c f) = Inr (- 99999)"
  by (simp add: AVG_def)

theorem AVG_function_empty_sentinel_witness:
  "scan_all no_shipments = ([], None) \<and> AVG no_shipments quantity = Inr (- 99999)"
proof -
  have h: "scan_all no_shipments = ([], None)" by code_simp
  show ?thesis
    using h AVG_function_empty_sentinel [OF h, of False "\<lambda>t. getitem t ''QTY''"]
    by (simp add: quantity_def)
qed

section \<open>Transactions\<close>


























text \<open>
  A materialized \<open>V2\<close> whose constraint was declared with a lambda is not committed
  either: \<open>pickle\<close> raises, the transaction stays open and the committed frame still holds
  the five suppliers under \<open>S\<close>.
\<close>

lemma commit_lambda_raises:
  "map_option snd (db_setattr in_transaction ''S'' pair_rel) = Some None
   \<and> map_option snd (db_commit (fst (the (db_setattr in_transaction ''S'' pair_rel)))) = Some (Some PicklingError)
   \<and> transactionId (fst (the (db_commit (fst (the (db_setattr in_transaction ''S'' pair_rel)))))) = 1
   \<and> map_option (map_option stored_rows)
        (map_option (\<lambda>fr. map_of fr ''S'')
           (transactions (fst (the (db_commit (fst (the (db_setattr in_transaction ''S'' pair_rel)))))) 0))
      = Some (Some (stored_rows date_S))"
proof -
  have a: "map_option snd (db_setattr in_transaction ''S'' pair_rel) = Some None" by code_simp
  have b: "map_option snd (db_commit (fst (the (db_setattr in_transaction ''S'' pair_rel)))) = Some (Some PicklingError)"
    by code_simp
  have c: "transactionId (fst (the (db_commit (fst (the (db_setattr in_transaction ''S'' pair_rel)))))) = 1"
    by code_simp
  have d: "map_option (map_option stored_rows)
        (map_option (\<lambda>fr. map_of fr ''S'')
           (transactions (fst (the (db_commit (fst (the (db_setattr in_transaction ''S'' pair_rel)))))) 0))
      = Some (Some (stored_rows date_S))"
    by code_simp
  show ?thesis using a b c d by simp
qed

section \<open>The inverted index\<close>

text \<open>
  C10, as the claim states it, fails for a row that does not fit the heading. The
  constructor call \<open>Relation(['a', 'b'], [(1, 2, 3)])\<close> returns a relation whose body
  holds the row \<open>(1, 2, 3)\<close>: on an empty body nothing compares the row with the heading.
  \<open>_hashfind((1, 2))\<close> then returns position 0, where the body holds no row equal to
  \<open>(1, 2)\<close>.
\<close>

theorem overlong_row_found_by_prefix:
  "rows_of_result overlong = Inr [[IntV 1, IntV 2, IntV 3]]
   \<and> find_in overlong (TRow [IntV 1, IntV 2]) = Inr {0}"
proof -
  have a: "rows_of_result overlong = Inr [[IntV 1, IntV 2, IntV 3]]" by code_simp
  have b: "find_in overlong (TRow [IntV 1, IntV 2]) = Inr {0}" by code_simp
  show ?thesis using a b by simp
qed

text \<open>
  A row that \<open>hash\<close> refuses leaves the index behind the body as well: the row is
  appended, \<open>hash\<close> raises, and the index is not updated. \<open>insert\<close> of a view that
  returns a dict holding a list, and \<open>_addToBody\<close> of a list, both end with \<open>TypeError\<close>
  and a body of one row that \<open>_hashfind\<close> does not find.
\<close>

lemma unhashable_row_not_indexed:
  "snd (insert_rel default_constraints empty_ab list_view) = Some TypeError
   \<and> stored_rows (fst (insert_rel default_constraints empty_ab list_view)) = [[IntV 99, ListV [IntV 1]]]
   \<and> hashfind (fst (insert_rel default_constraints empty_ab list_view))
        (DRow [(''a'', IntV 99), (''b'', ListV [IntV 1])]) = Inr {}
   \<and> snd (add_row empty_ab (LRow [IntV 1, IntV 2])) = Some TypeError
   \<and> stored_rows (fst (add_row empty_ab (LRow [IntV 1, IntV 2]))) = [[IntV 1, IntV 2]]
   \<and> hashfind (fst (add_row empty_ab (LRow [IntV 1, IntV 2]))) (TRow [IntV 1, IntV 2]) = Inr {}"
proof -
  have a: "snd (insert_rel default_constraints empty_ab list_view) = Some TypeError" by code_simp
  have b: "stored_rows (fst (insert_rel default_constraints empty_ab list_view)) = [[IntV 99, ListV [IntV 1]]]"
    by code_simp
  have c: "hashfind (fst (insert_rel default_constraints empty_ab list_view))
        (DRow [(''a'', IntV 99), (''b'', ListV [IntV 1])]) = Inr {}"
    by code_simp
  have d: "snd (add_row empty_ab (LRow [IntV 1, IntV 2])) = Some TypeError" by code_simp
  have e: "stored_rows (fst (add_row empty_ab (LRow [IntV 1, IntV 2]))) = [[IntV 1, IntV 2]]" by code_simp
  have f: "hashfind (fst (add_row empty_ab (LRow [IntV 1, IntV 2]))) (TRow [IntV 1, IntV 2]) = Inr {}"
    by code_simp
  show ?thesis using a b c d e f by simp
qed

text \<open>
  C10, amended. Let \<open>r\<close> be built by the constructor and by any sequence of insert and
  delete batches (\<open>_addToBody\<close>, \<open>_removeFromBody\<close>; kept, reverted after a constraint
  failure, or ended by the type check) in which every row fits the heading: a tuple with
  one hashable value for each attribute, or a dict whose keys are the attributes of the
  heading, with hashable values. Then the body of \<open>r\<close> is a list of tuples with values
  \<open>b\<close>, the index entry of the \<open>j\<close>-th attribute and a value \<open>v\<close> is the set of the
  positions of the rows of \<open>b\<close> whose \<open>j\<close>-th component is \<open>v\<close>, and \<open>_hashfind\<close> of a
  row that fits the heading returns the positions of the rows of \<open>b\<close> equal to it.
\<close>

theorem index_consistent:
  "fitted r \<Longrightarrow>
   \<exists>b. r_body r = Materialized (map TupleRow b) \<and> index_ok (r_heading r) b (headingInvert r)
       \<and> (\<forall>row. fits (r_heading r) row \<longrightarrow>
            hashfind r row = Inr {i. i < length b \<and> b ! i = row_of (r_heading r) row})"
proof -
  assume "fitted r"
  then obtain b where b: "r_body r = Materialized (map TupleRow b)" "wf_mat (r_heading r) b (headingInvert r)"
    using fitted_wf by blast
  have "index_ok (r_heading r) b (headingInvert r)" using b(2) by (simp add: wf_mat_def)
  moreover have "\<forall>row. fits (r_heading r) row \<longrightarrow>
            hashfind r row = Inr {i. i < length b \<and> b ! i = row_of (r_heading r) row}"
    using hashfind_found[OF b(2) b(1)] by blast
  ultimately show ?thesis using b(1) by blast
qed

lemma S_without_S1_fitted: "fitted S_without_S1"
proof -
  have f: "\<forall>row \<in> set S_rows. fits S_heading row" by code_simp
  have d: "distinct S_heading" by code_simp
  have k: "fitted date_S"
    unfolding date_S_def by (rule setBody_fitted[OF d f])
  have c: "consume (r_heading date_S) (scan_all S1_relation)
             = Inr [[StrV ''S1'', StrV ''Smith'', IntV 20, StrV ''London'']]"
    by code_simp
  have h: "r_heading date_S = S_heading" by code_simp
  have i: "delete_rel S_key date_S S1_relation
        = removeFromBody S_key (map TRow [[StrV ''S1'', StrV ''Smith'', IntV 20, StrV ''London'']]) False date_S"
  proof -
    have "\<not> is_callable date_S" by code_simp
    moreover have "set (heading date_S) = set (heading S1_relation)" by code_simp
    ultimately show ?thesis using c by (simp add: delete_rel_def)
  qed
  show ?thesis unfolding S_without_S1_def i
    by (rule fitted.deleted[OF k]) (simp add: fits_def h S_heading_def)
qed

theorem index_consistent_witness:
  "fitted S_without_S1
   \<and> stored_rows S_without_S1
       = [[StrV ''S2'', StrV ''Jones'', IntV 10, StrV ''Paris''],
          [StrV ''S3'', StrV ''Blake'', IntV 30, StrV ''Paris''],
          [StrV ''S4'', StrV ''Clark'', IntV 20, StrV ''London''],
          [StrV ''S5'', StrV ''Adams'', IntV 30, StrV ''Athens'']]
   \<and> (\<exists>b. r_body S_without_S1 = Materialized (map TupleRow b)
          \<and> index_ok (r_heading S_without_S1) b (headingInvert S_without_S1)
          \<and> (\<forall>row. fits (r_heading S_without_S1) row \<longrightarrow>
               hashfind S_without_S1 row
               = Inr {i. i < length b \<and> b ! i = row_of (r_heading S_without_S1) row}))"
proof -
  have rows: "stored_rows S_without_S1
       = [[StrV ''S2'', StrV ''Jones'', IntV 10, StrV ''Paris''],
          [StrV ''S3'', StrV ''Blake'', IntV 30, StrV ''Paris''],
          [StrV ''S4'', StrV ''Clark'', IntV 20, StrV ''London''],
          [StrV ''S5'', StrV ''Adams'', IntV 30, StrV ''Athens'']]"
    by code_simp
  show ?thesis
    using index_consistent [OF S_without_S1_fitted] S_without_S1_fitted rows by simp
qed

end
